theory Spec2Isabelle
  imports Main
begin

section \<open>Values, forms and the store\<close>

text \<open>
  An \<^verbatim>\<open>Env\<close> object has two fields, \<^verbatim>\<open>parent\<close> and \<^verbatim>\<open>symbols\<close>, both assigned once in
  \<^verbatim>\<open>init\<close> and never again, and no code compares two \<^verbatim>\<open>Env\<close> objects. An \<^verbatim>\<open>Env\<close> is
  therefore the value \<open>Env parent symbols\<close>, where \<open>symbols\<close> is the reference of the
  (mutable, possibly shared) symbol table. A parent is \<^verbatim>\<open>null\<close>, another \<^verbatim>\<open>Env\<close>, or any
  other host object (\<^verbatim>\<open>this.parent instanceof Env\<close> is false for it).
\<close>

datatype env = ENull | EHost nat | Env env nat

datatype cmpop = LooseEq | StrictEq | LooseNe | StrictNe | Lt | Gt | Le | Ge

datatype ispred =
  IsTrue | IsFalse | IsNull | IsUndefined | IsString | IsNumber | IsBoolean | IsFunction | IsObject

datatype macro =
  MLambda | MDefun | MTry | MLet | MSetq | MProgn | MIf | MWhen | MNot | MOr | MAnd
  | MCmp cmpop | MIs ispred

text \<open>
  Symbols and lists are host objects that \<^verbatim>\<open>try\<close> mutates in place, so a form refers to them
  by reference: \<open>Sym r\<close> is the \<^verbatim>\<open>Symbol\<close> object \<open>r\<close> (its \<^verbatim>\<open>value\<close> is \<open>syms \<sigma> r\<close>), \<open>Arr a\<close>
  the array \<open>a\<close>. Numbers are integers here. A function built by \<^verbatim>\<open>lambda\<close> keeps the
  \<^verbatim>\<open>Env\<close> made when the \<^verbatim>\<open>lambda\<close> form was evaluated, its \<^verbatim>\<open>arglist\<close> and the copy
  \<^verbatim>\<open>args.slice(1)\<close> of its body; one built by \<^verbatim>\<open>defun\<close> keeps \<^verbatim>\<open>arglist\<close> and
  \<^verbatim>\<open>args.slice(2)\<close>. \<open>HostFn\<close> is a function of the host, which the model never runs.
\<close>

datatype val =
  Undefined | Null | Bool bool | Num int | Str string | Sym nat | Keyword string
  | Arr nat | Obj nat | Fun func | HostFn string | Macro macro | Err string
and func = Lambda env val "val list" | Defun val "val list"

text \<open>
  A host object, as far as the code looks at it: its own properties, the properties it
  inherits, both with the values a read yields, and the names under which an assignment to
  it is not a plain store, because the object has or inherits an accessor or a read-only
  property of that name. For a \<^verbatim>\<open>{}\<close> the only such name is \<^verbatim>\<open>__proto__\<close>, the accessor of
  \<^verbatim>\<open>Object.prototype\<close>.
\<close>

record jsobj =
  own :: "string \<rightharpoonup> val"
  inh :: "string \<rightharpoonup> val"
  guarded :: "string set"

record state =
  lisp_env :: env
  objs :: "nat \<Rightarrow> jsobj"
  next_obj :: nat
  arrs :: "nat \<Rightarrow> val list"
  next_arr :: nat
  syms :: "nat \<Rightarrow> string"
  next_sym :: nat
  global :: nat

text \<open>
  What the host decides and the repository does not: the comparison operators, the
  receiver of a call made without one, \<^verbatim>\<open>String(v)\<close> for a value that is neither a symbol
  nor a primitive with a fixed spelling, and the properties every fresh \<^verbatim>\<open>{}\<close> inherits.
\<close>

record host =
  compare :: "cmpop \<Rightarrow> val \<Rightarrow> val \<Rightarrow> bool"
  plain_this :: val
  to_string :: "state \<Rightarrow> val \<Rightarrow> string"
  object_proto :: "string \<rightharpoonup> val"

text \<open>
  The outcome of running code: a value, a thrown value, no answer within the fuel, or a step
  of the host that this model does not describe.
\<close>

datatype result = Ok val | Throw val | Timeout | Unmodelled

definition type_error :: val where
  "type_error = Err ''TypeError''"

subsection \<open>Host primitives\<close>

fun truthy :: "val \<Rightarrow> bool" where
  "truthy Undefined = False"
| "truthy Null = False"
| "truthy (Bool b) = b"
| "truthy (Num n) = (n \<noteq> 0)"
| "truthy (Str s) = (s \<noteq> [])"
| "truthy _ = True"

text \<open>\<^verbatim>\<open>v != undefined\<close>\<close>

fun loosely_defined :: "val \<Rightarrow> bool" where
  "loosely_defined Undefined = False"
| "loosely_defined Null = False"
| "loosely_defined _ = True"

fun is_callable :: "val \<Rightarrow> bool" where
  "is_callable (Fun f) = True"
| "is_callable (HostFn n) = True"
| "is_callable _ = False"

definition prop_read :: "jsobj \<Rightarrow> string \<Rightarrow> val" where
  "prop_read ob k =
     (case own ob k of Some v \<Rightarrow> v
      | None \<Rightarrow> (case inh ob k of Some v \<Rightarrow> v | None \<Rightarrow> Undefined))"

text \<open>The store into a plain data property: the object gets or keeps \<open>k\<close> as a key of its own.\<close>

definition obj_write :: "state \<Rightarrow> nat \<Rightarrow> string \<Rightarrow> val \<Rightarrow> state" where
  "obj_write \<sigma> r k v = \<sigma>\<lparr>objs := (objs \<sigma>)(r := (objs \<sigma> r)\<lparr>own := (own (objs \<sigma> r))(k \<mapsto> v)\<rparr>)\<rparr>"

text \<open>
  The setter of \<^verbatim>\<open>__proto__\<close> takes an object or \<^verbatim>\<open>null\<close> as the new prototype and does
  nothing with any other value.
\<close>

fun sets_prototype :: "val \<Rightarrow> bool" where
  "sets_prototype Undefined = False"
| "sets_prototype (Bool b) = False"
| "sets_prototype (Num n) = False"
| "sets_prototype (Str s) = False"
| "sets_prototype _ = True"

text \<open>
  The assignment \<^verbatim>\<open>o[k] = v\<close> to the object \<open>r\<close>. Under a name that is not guarded it is a
  plain store. Under \<^verbatim>\<open>__proto__\<close>, guarded by the inherited accessor, a value that is neither
  an object nor \<^verbatim>\<open>null\<close> changes nothing and no own property comes to be; an object or
  \<^verbatim>\<open>null\<close> replaces the prototype, which this model does not follow, and neither does it
  follow what the host does under any other guarded name.
\<close>

definition js_assign :: "state \<Rightarrow> nat \<Rightarrow> string \<Rightarrow> val \<Rightarrow> result \<times> state" where
  "js_assign \<sigma> r k v =
     (if k \<notin> guarded (objs \<sigma> r) then (Ok Undefined, obj_write \<sigma> r k v)
      else if k = ''__proto__'' \<and> \<not> sets_prototype v then (Ok Undefined, \<sigma>)
      else (Unmodelled, \<sigma>))"

text \<open>
  The call \<^verbatim>\<open>o.hasOwnProperty(k)\<close>. The method is looked up on the object like any other
  property, so a binding named \<^verbatim>\<open>hasOwnProperty\<close> in a symbol table takes its place: when
  what is found is the host's function, the own keys answer; when it is no function, the
  call throws; when it is another function, that function decides, and the model does not
  run it.
\<close>

definition hasOwnProperty :: "state \<Rightarrow> nat \<Rightarrow> string \<Rightarrow> result" where
  "hasOwnProperty \<sigma> r k =
     (case prop_read (objs \<sigma> r) ''hasOwnProperty'' of
        HostFn f \<Rightarrow>
          (if f = ''Object.prototype.hasOwnProperty''
           then Ok (Bool (own (objs \<sigma> r) k \<noteq> None)) else Unmodelled)
      | Fun f \<Rightarrow> Unmodelled
      | _ \<Rightarrow> Throw type_error)"

text \<open>\<^verbatim>\<open>s.split(".")\<close> and \<^verbatim>\<open>parts.join(".")\<close>\<close>

fun split_dot :: "string \<Rightarrow> string list" where
  "split_dot [] = [[]]"
| "split_dot (c # cs) =
     (if c = CHR ''.'' then [] # split_dot cs
      else (case split_dot cs of p # ps \<Rightarrow> (c # p) # ps | [] \<Rightarrow> [[c]]))"

fun join_dot :: "string list \<Rightarrow> string" where
  "join_dot [] = []"
| "join_dot [p] = p"
| "join_dot (p # ps) = p @ ''.'' @ join_dot ps"

text \<open>\<^verbatim>\<open>String(v)\<close>; a \<^verbatim>\<open>Symbol\<close> prints as its \<^verbatim>\<open>value\<close>.\<close>

definition js_String :: "host \<Rightarrow> state \<Rightarrow> val \<Rightarrow> string" where
  "js_String h \<sigma> v =
     (case v of
        Str s \<Rightarrow> s
      | Sym r \<Rightarrow> syms \<sigma> r
      | Undefined \<Rightarrow> ''undefined''
      | Null \<Rightarrow> ''null''
      | Bool b \<Rightarrow> (if b then ''true'' else ''false'')
      | _ \<Rightarrow> to_string h \<sigma> v)"

section \<open>Env.js\<close>

text \<open>
  \<^verbatim>\<open>new Env(parent)\<close>: \<^verbatim>\<open>this.symbols = symbols || {}\<close> makes a fresh table, a \<^verbatim>\<open>{}\<close> with no
  property of its own.
\<close>

definition new_Env :: "host \<Rightarrow> env \<Rightarrow> state \<Rightarrow> env \<times> state" where
  "new_Env h parent \<sigma> =
     (Env parent (next_obj \<sigma>),
      \<sigma>\<lparr>objs := (objs \<sigma>)(next_obj \<sigma> :=
                 \<lparr>own = Map.empty, inh = object_proto h, guarded = {''__proto__''}\<rparr>),
        next_obj := Suc (next_obj \<sigma>)\<rparr>)"

text \<open>
  The methods below belong to \<^verbatim>\<open>Env\<close> objects; their equations for \<open>ENull\<close> and \<open>EHost\<close>
  only make the functions total and are not reached from the callers in this theory.
\<close>

fun Env_has :: "state \<Rightarrow> env \<Rightarrow> string \<Rightarrow> result" where
  "Env_has \<sigma> (Env p s) symbol =
     (case hasOwnProperty \<sigma> s symbol of
        Ok b \<Rightarrow>
          (if truthy b then Ok (Bool True)
           else (case p of
                   ENull \<Rightarrow> Ok (Bool False)
                 | Env p' s' \<Rightarrow> Env_has \<sigma> p symbol
                 | EHost g \<Rightarrow> Ok (Bool (loosely_defined (prop_read (objs \<sigma> g) symbol)))))
      | r \<Rightarrow> r)"
| "Env_has \<sigma> ENull symbol = Throw type_error"
| "Env_has \<sigma> (EHost g) symbol = Unmodelled"

text \<open>
  The search of \<^verbatim>\<open>get\<close> for the first part of the name:
  \<^verbatim>\<open>this.symbols.hasOwnProperty(symbol) || this.symbols[symbol]\<close> lets a table answer that
  owns the name or reads a truthy value under it. The recursive
  \<^verbatim>\<open>this.parent.get(symbol)\<close> gets a name without a dot, so it is this search again.
\<close>

fun Env_lookup :: "state \<Rightarrow> env \<Rightarrow> string \<Rightarrow> result" where
  "Env_lookup \<sigma> (Env p s) symbol =
     (case hasOwnProperty \<sigma> s symbol of
        Ok b \<Rightarrow>
          (if truthy b \<or> truthy (prop_read (objs \<sigma> s) symbol)
           then Ok (prop_read (objs \<sigma> s) symbol)
           else (case p of
                   ENull \<Rightarrow> Ok Undefined
                 | Env p' s' \<Rightarrow> Env_lookup \<sigma> p symbol
                 | EHost g \<Rightarrow> Ok (prop_read (objs \<sigma> g) symbol)))
      | r \<Rightarrow> r)"
| "Env_lookup \<sigma> ENull symbol = Throw type_error"
| "Env_lookup \<sigma> (EHost g) symbol = Unmodelled"

text \<open>
  \<^verbatim>\<open>value = value[parts[i]]\<close> along the rest of a dotted name. Only plain objects have
  modelled properties; reading a property of \<^verbatim>\<open>undefined\<close> or \<^verbatim>\<open>null\<close> throws.
\<close>

fun chase :: "state \<Rightarrow> val \<Rightarrow> string list \<Rightarrow> result" where
  "chase \<sigma> v [] = Ok v"
| "chase \<sigma> v (k # ks) =
     (case v of
        Obj r \<Rightarrow> chase \<sigma> (prop_read (objs \<sigma> r) k) ks
      | Undefined \<Rightarrow> Throw type_error
      | Null \<Rightarrow> Throw type_error
      | _ \<Rightarrow> Unmodelled)"

definition Env_get :: "state \<Rightarrow> env \<Rightarrow> string \<Rightarrow> result" where
  "Env_get \<sigma> e symbol =
     (case split_dot symbol of
        [] \<Rightarrow> Ok Undefined
      | first # parts \<Rightarrow>
          (case Env_lookup \<sigma> e first of
             Ok v \<Rightarrow> if truthy v \<and> parts \<noteq> [] then chase \<sigma> v parts else Ok v
           | r \<Rightarrow> r))"

text \<open>
  The last branch of \<^verbatim>\<open>set\<close>, for a name \<^verbatim>\<open>has\<close> does not find:
  \<^verbatim>\<open>while (object.parent && object.parent.symbols != global) object = object.parent;\<close>
  then \<^verbatim>\<open>object.symbols[symbol] = value\<close>. When the walk reaches a parent that is no
  \<^verbatim>\<open>Env\<close>, \<^verbatim>\<open>symbols\<close> and \<^verbatim>\<open>parent\<close> are read as properties of that host object.
\<close>

fun set_walk :: "state \<Rightarrow> env \<Rightarrow> string \<Rightarrow> val \<Rightarrow> result \<times> state" where
  "set_walk \<sigma> (Env p s) symbol v =
     (case p of
        ENull \<Rightarrow> js_assign \<sigma> s symbol v
      | Env p' s' \<Rightarrow>
          (if s' \<noteq> global \<sigma> then set_walk \<sigma> p symbol v
           else js_assign \<sigma> s symbol v)
      | EHost g \<Rightarrow>
          (case prop_read (objs \<sigma> g) ''symbols'' of
             Obj r \<Rightarrow>
               (if r \<noteq> global \<sigma> then
                  (if truthy (prop_read (objs \<sigma> g) ''parent'') then (Unmodelled, \<sigma>)
                   else js_assign \<sigma> r symbol v)
                else js_assign \<sigma> s symbol v)
           | Undefined \<Rightarrow>
               (if truthy (prop_read (objs \<sigma> g) ''parent'') then (Unmodelled, \<sigma>)
                else (Throw type_error, \<sigma>))
           | Null \<Rightarrow>
               (if truthy (prop_read (objs \<sigma> g) ''parent'') then (Unmodelled, \<sigma>)
                else (Throw type_error, \<sigma>))
           | _ \<Rightarrow> (Unmodelled, \<sigma>)))"
| "set_walk \<sigma> ENull symbol v = (Throw type_error, \<sigma>)"
| "set_walk \<sigma> (EHost g) symbol v = (Unmodelled, \<sigma>)"

text \<open>
  The error of the dotted branch of \<^verbatim>\<open>set\<close>:
  \<^verbatim>\<open>new Error(name + " is unsubscriptable: " + e)\<close>, where \<^verbatim>\<open>e\<close> is the error the host threw
  at the assignment and the host spells it.
\<close>

definition unsubscriptable :: "host \<Rightarrow> state \<Rightarrow> string \<Rightarrow> val" where
  "unsubscriptable h \<sigma> name = Err (name @ '' is unsubscriptable: '' @ js_String h \<sigma> type_error)"

text \<open>
  \<^verbatim>\<open>set\<close>. In the branch for a name \<^verbatim>\<open>has\<close> finds, the call \<^verbatim>\<open>this.parent.set\<close> stands in a
  \<^verbatim>\<open>try\<close> whose handler stores into the table at hand.
\<close>

fun Env_set :: "host \<Rightarrow> state \<Rightarrow> env \<Rightarrow> string \<Rightarrow> val \<Rightarrow> result \<times> state" where
  "Env_set h \<sigma> (Env p s) symbol v =
     (let parts = split_dot symbol in
      if length parts > 1 then
        (let name = join_dot (butlast parts) in
         case Env_get \<sigma> (Env p s) name of
           Ok object \<Rightarrow>
             (case object of
                Obj r \<Rightarrow> js_assign \<sigma> r (last parts) v
              | Undefined \<Rightarrow> (Throw (unsubscriptable h \<sigma> name), \<sigma>)
              | Null \<Rightarrow> (Throw (unsubscriptable h \<sigma> name), \<sigma>)
              | _ \<Rightarrow> (Unmodelled, \<sigma>))
         | r \<Rightarrow> (r, \<sigma>))
      else
        (case Env_has \<sigma> (Env p s) symbol of
           Ok b \<Rightarrow>
             (if truthy b then
                (case hasOwnProperty \<sigma> s symbol of
                   Ok mine \<Rightarrow>
                     (if truthy mine then js_assign \<sigma> s symbol v
                      else (case p of
                              Env p' s' \<Rightarrow>
                                (case Env_set h \<sigma> p symbol v of
                                   (Throw e, \<sigma>') \<Rightarrow> js_assign \<sigma>' s symbol v
                                 | r \<Rightarrow> r)
                            | EHost g \<Rightarrow> js_assign \<sigma> g symbol v
                            | ENull \<Rightarrow> (Throw type_error, \<sigma>)))
                 | r \<Rightarrow> (r, \<sigma>))
              else set_walk \<sigma> (Env p s) symbol v)
         | r \<Rightarrow> (r, \<sigma>)))"
| "Env_set h \<sigma> ENull symbol v = (Throw type_error, \<sigma>)"
| "Env_set h \<sigma> (EHost g) symbol v = (Unmodelled, \<sigma>)"

text \<open>\<^verbatim>\<open>let\<close>: \<^verbatim>\<open>this.symbols[symbol] = value\<close>\<close>

fun Env_let :: "state \<Rightarrow> env \<Rightarrow> string \<Rightarrow> val \<Rightarrow> result \<times> state" where
  "Env_let \<sigma> (Env p s) symbol v = js_assign \<sigma> s symbol v"
| "Env_let \<sigma> ENull symbol v = (Throw type_error, \<sigma>)"
| "Env_let \<sigma> (EHost g) symbol v = (Unmodelled, \<sigma>)"

text \<open>
  \<^verbatim>\<open>lisp.env.get(v)\<close>, \<^verbatim>\<open>lisp.env.set(v, x)\<close> and \<^verbatim>\<open>lisp.env.let(v, x)\<close> on whatever
  \<^verbatim>\<open>lisp.env\<close> holds: each method starts with \<^verbatim>\<open>symbol = String(symbol)\<close>. On \<^verbatim>\<open>null\<close> the call
  throws; on a host object that is no \<^verbatim>\<open>Env\<close> it throws unless the object has a function of
  that name, which the model does not run.
\<close>

definition host_method :: "state \<Rightarrow> nat \<Rightarrow> string \<Rightarrow> result" where
  "host_method \<sigma> r m = (if is_callable (prop_read (objs \<sigma> r) m) then Unmodelled else Throw type_error)"

definition cur_get :: "host \<Rightarrow> state \<Rightarrow> val \<Rightarrow> result" where
  "cur_get h \<sigma> v =
     (case lisp_env \<sigma> of
        Env p s \<Rightarrow> Env_get \<sigma> (Env p s) (js_String h \<sigma> v)
      | ENull \<Rightarrow> Throw type_error
      | EHost r \<Rightarrow> host_method \<sigma> r ''get'')"

definition cur_set :: "host \<Rightarrow> state \<Rightarrow> val \<Rightarrow> val \<Rightarrow> result \<times> state" where
  "cur_set h \<sigma> v x =
     (case lisp_env \<sigma> of
        Env p s \<Rightarrow> Env_set h \<sigma> (Env p s) (js_String h \<sigma> v) x
      | ENull \<Rightarrow> (Throw type_error, \<sigma>)
      | EHost r \<Rightarrow> (host_method \<sigma> r ''set'', \<sigma>))"

definition cur_let :: "host \<Rightarrow> state \<Rightarrow> val \<Rightarrow> val \<Rightarrow> result \<times> state" where
  "cur_let h \<sigma> v x =
     (case lisp_env \<sigma> of
        Env p s \<Rightarrow> Env_let \<sigma> (Env p s) (js_String h \<sigma> v) x
      | ENull \<Rightarrow> (Throw type_error, \<sigma>)
      | EHost r \<Rightarrow> (host_method \<sigma> r ''let'', \<sigma>))"

text \<open>\<^verbatim>\<open>lisp.env = lisp.env.parent\<close>, the last step of \<^verbatim>\<open>let\<close> and of a \<^verbatim>\<open>defun\<close> function.\<close>

definition pop_env :: "val \<Rightarrow> state \<Rightarrow> result \<times> state" where
  "pop_env ret \<sigma> =
     (case lisp_env \<sigma> of
        Env p s \<Rightarrow> (Ok ret, \<sigma>\<lparr>lisp_env := p\<rparr>)
      | ENull \<Rightarrow> (Throw type_error, \<sigma>)
      | EHost r \<Rightarrow> (Unmodelled, \<sigma>))"

section \<open>Reading forms\<close>

text \<open>
  \<^verbatim>\<open>v.length\<close> as a loop bound and \<^verbatim>\<open>v[i]\<close>, for the forms a macro receives: an array, a
  string (its characters), \<^verbatim>\<open>undefined\<close> or \<^verbatim>\<open>null\<close> (both throw), or an atom without
  either property (\<^verbatim>\<open>i < undefined\<close> is false, \<^verbatim>\<open>v[i]\<close> is \<^verbatim>\<open>undefined\<close>).
\<close>

fun js_length :: "state \<Rightarrow> val \<Rightarrow> result + nat" where
  "js_length \<sigma> (Arr a) = Inr (length (arrs \<sigma> a))"
| "js_length \<sigma> (Str s) = Inr (length s)"
| "js_length \<sigma> Undefined = Inl (Throw type_error)"
| "js_length \<sigma> Null = Inl (Throw type_error)"
| "js_length \<sigma> (Obj r) = Inl Unmodelled"
| "js_length \<sigma> (Fun f) = Inl Unmodelled"
| "js_length \<sigma> (HostFn n) = Inl Unmodelled"
| "js_length \<sigma> _ = Inr 0"

fun js_index :: "state \<Rightarrow> val \<Rightarrow> nat \<Rightarrow> result + val" where
  "js_index \<sigma> (Arr a) i = Inr (if i < length (arrs \<sigma> a) then arrs \<sigma> a ! i else Undefined)"
| "js_index \<sigma> (Str s) i = Inr (if i < length s then Str [s ! i] else Undefined)"
| "js_index \<sigma> Undefined i = Inl (Throw type_error)"
| "js_index \<sigma> Null i = Inl (Throw type_error)"
| "js_index \<sigma> (Obj r) i = Inl Unmodelled"
| "js_index \<sigma> (Fun f) i = Inl Unmodelled"
| "js_index \<sigma> (HostFn n) i = Inl Unmodelled"
| "js_index \<sigma> _ i = Inr Undefined"

text \<open>The elements \<^verbatim>\<open>v[0], ..., v[v.length - 1]\<close> a parameter loop goes through.\<close>

fun js_elems :: "state \<Rightarrow> val \<Rightarrow> result + val list" where
  "js_elems \<sigma> (Arr a) = Inr (arrs \<sigma> a)"
| "js_elems \<sigma> (Str s) = Inr (map (\<lambda>c. Str [c]) s)"
| "js_elems \<sigma> Undefined = Inl (Throw type_error)"
| "js_elems \<sigma> Null = Inl (Throw type_error)"
| "js_elems \<sigma> (Obj r) = Inl Unmodelled"
| "js_elems \<sigma> (Fun f) = Inl Unmodelled"
| "js_elems \<sigma> (HostFn n) = Inl Unmodelled"
| "js_elems \<sigma> _ = Inr []"

text \<open>\<^verbatim>\<open>args[i]\<close> of an argument array: \<^verbatim>\<open>undefined\<close> past its end.\<close>

definition arg_at :: "val list \<Rightarrow> nat \<Rightarrow> val" where
  "arg_at args i = (if i < length args then args ! i else Undefined)"

definition digit_char :: "nat \<Rightarrow> char" where
  "digit_char n = ''0123456789'' ! (n mod 10)"

fun show_nat :: "nat \<Rightarrow> string" where
  "show_nat n = (if n < 10 then [digit_char n] else show_nat (n div 10) @ [digit_char (n mod 10)])"

declare show_nat.simps [simp del]

section \<open>The macros\<close>

text \<open>
  Every macro calls the evaluator \<^verbatim>\<open>resolve\<close> on the forms it chooses; here the
  evaluator is the parameter \<open>ev\<close>. \<^verbatim>\<open>var ret = null; for (...) ret = resolve(body[i]);\<close>
  is \<open>eval_body ev Null body\<close>: a throw leaves the loop at once.
\<close>

type_synonym evaluator = "val \<Rightarrow> state \<Rightarrow> result \<times> state"

fun eval_body :: "evaluator \<Rightarrow> val \<Rightarrow> val list \<Rightarrow> state \<Rightarrow> result \<times> state" where
  "eval_body ev ret [] \<sigma> = (Ok ret, \<sigma>)"
| "eval_body ev ret (b # bs) \<sigma> =
     (case ev b \<sigma> of (Ok v, \<sigma>') \<Rightarrow> eval_body ev v bs \<sigma>' | (r, \<sigma>') \<Rightarrow> (r, \<sigma>'))"

text \<open>\<^verbatim>\<open>args.map(resolve)\<close>, left to right.\<close>

fun eval_args :: "evaluator \<Rightarrow> val list \<Rightarrow> state \<Rightarrow> (result + val list) \<times> state" where
  "eval_args ev [] \<sigma> = (Inr [], \<sigma>)"
| "eval_args ev (a # as) \<sigma> =
     (case ev a \<sigma> of
        (Ok v, \<sigma>') \<Rightarrow>
          (case eval_args ev as \<sigma>' of (Inr vs, \<sigma>'') \<Rightarrow> (Inr (v # vs), \<sigma>'') | (Inl r, \<sigma>'') \<Rightarrow> (Inl r, \<sigma>''))
      | (r, \<sigma>') \<Rightarrow> (Inl r, \<sigma>'))"

subsection \<open>Functions made by lambda and defun\<close>

text \<open>
  \<^verbatim>\<open>for (i = 0; i < arglist.length; i++) lisp.env.let(arglist[i], arguments[i]);\<close> with
  \<^verbatim>\<open>lisp.env\<close> the function's own \<^verbatim>\<open>Env\<close>.
\<close>

fun bind_lets ::
  "host \<Rightarrow> env \<Rightarrow> val list \<Rightarrow> nat \<Rightarrow> val list \<Rightarrow> state \<Rightarrow> result \<times> state" where
  "bind_lets h e [] i args \<sigma> = (Ok Undefined, \<sigma>)"
| "bind_lets h e (p # ps) i args \<sigma> =
     (case Env_let \<sigma> e (js_String h \<sigma> p) (arg_at args i) of
        (Ok u, \<sigma>') \<Rightarrow> bind_lets h e ps (Suc i) args \<sigma>'
      | (r, \<sigma>') \<Rightarrow> (r, \<sigma>'))"

text \<open>
  \<^verbatim>\<open>for (i = 0; i < arglist.length; i++) lisp.env.set(arglist[i], arguments[i]);\<close> of a
  \<^verbatim>\<open>defun\<close> function; \<^verbatim>\<open>set\<close> may throw.
\<close>

fun bind_sets :: "host \<Rightarrow> val list \<Rightarrow> nat \<Rightarrow> val list \<Rightarrow> state \<Rightarrow> result \<times> state" where
  "bind_sets h [] i args \<sigma> = (Ok Undefined, \<sigma>)"
| "bind_sets h (p # ps) i args \<sigma> =
     (case cur_set h \<sigma> p (arg_at args i) of
        (Ok v, \<sigma>') \<Rightarrow> bind_sets h ps (Suc i) args \<sigma>'
      | (r, \<sigma>') \<Rightarrow> (r, \<sigma>'))"

text \<open>The function \<^verbatim>\<open>lambda\<close> returns, called with receiver \<open>this\<close> and arguments \<open>args\<close>.\<close>

definition call_lambda ::
  "host \<Rightarrow> evaluator \<Rightarrow> env \<Rightarrow> val \<Rightarrow> val list \<Rightarrow> val \<Rightarrow> val list \<Rightarrow> state \<Rightarrow> result \<times> state" where
  "call_lambda h ev e arglist body this args \<sigma> =
     (let tempEnv = lisp_env \<sigma>
      in case Env_let (\<sigma>\<lparr>lisp_env := e\<rparr>) e ''this'' this of
           (Ok u, \<sigma>0) \<Rightarrow>
             (case js_elems \<sigma>0 arglist of
                Inl r \<Rightarrow> (r, \<sigma>0)
              | Inr ps \<Rightarrow>
                  (case bind_lets h e ps 0 args \<sigma>0 of
                     (Ok u', \<sigma>1) \<Rightarrow>
                       (case eval_body ev Null body \<sigma>1 of
                          (Ok ret, \<sigma>2) \<Rightarrow> (Ok ret, \<sigma>2\<lparr>lisp_env := tempEnv\<rparr>)
                        | (r, \<sigma>2) \<Rightarrow> (r, \<sigma>2))
                   | (r, \<sigma>1) \<Rightarrow> (r, \<sigma>1)))
         | (r, \<sigma>0) \<Rightarrow> (r, \<sigma>0))"

text \<open>The function \<^verbatim>\<open>defun\<close> installs, called with arguments \<open>args\<close>.\<close>

definition call_defun ::
  "host \<Rightarrow> evaluator \<Rightarrow> val \<Rightarrow> val list \<Rightarrow> val list \<Rightarrow> state \<Rightarrow> result \<times> state" where
  "call_defun h ev arglist body args \<sigma> =
     (let (e, \<sigma>0) = new_Env h (lisp_env \<sigma>) \<sigma>;
          \<sigma>1 = \<sigma>0\<lparr>lisp_env := e\<rparr>
      in case js_elems \<sigma>1 arglist of
           Inl r \<Rightarrow> (r, \<sigma>1)
         | Inr ps \<Rightarrow>
             (case bind_sets h ps 0 args \<sigma>1 of
                (Ok u, \<sigma>2) \<Rightarrow>
                  (case eval_body ev Null body \<sigma>2 of
                     (Ok ret, \<sigma>3) \<Rightarrow> pop_env ret \<sigma>3
                   | (r, \<sigma>3) \<Rightarrow> (r, \<sigma>3))
              | (r, \<sigma>2) \<Rightarrow> (r, \<sigma>2)))"

text \<open>Calling a value as a host function: \<^verbatim>\<open>f.apply(this, args)\<close>.\<close>

definition call_fn ::
  "host \<Rightarrow> evaluator \<Rightarrow> val \<Rightarrow> val \<Rightarrow> val list \<Rightarrow> state \<Rightarrow> result \<times> state" where
  "call_fn h ev f this args \<sigma> =
     (case f of
        Fun (Lambda e arglist body) \<Rightarrow> call_lambda h ev e arglist body this args \<sigma>
      | Fun (Defun arglist body) \<Rightarrow> call_defun h ev arglist body args \<sigma>
      | HostFn n \<Rightarrow> (Unmodelled, \<sigma>)
      | _ \<Rightarrow> (Throw type_error, \<sigma>))"

definition lambda_macro :: "host \<Rightarrow> val list \<Rightarrow> state \<Rightarrow> result \<times> state" where
  "lambda_macro h args \<sigma> =
     (let (e, \<sigma>') = new_Env h (lisp_env \<sigma>) \<sigma>
      in (Ok (Fun (Lambda e (arg_at args 0) (drop 1 args))), \<sigma>'))"

definition defun_macro :: "host \<Rightarrow> val list \<Rightarrow> state \<Rightarrow> result \<times> state" where
  "defun_macro h args \<sigma> =
     (case cur_set h \<sigma> (arg_at args 0) (Fun (Defun (arg_at args 1) (drop 2 args))) of
        (Ok u, \<sigma>') \<Rightarrow> (Ok Undefined, \<sigma>')
      | (r, \<sigma>') \<Rightarrow> (r, \<sigma>'))"

subsection \<open>try\<close>

text \<open>
  The body loop of \<^verbatim>\<open>try\<close>; when a form throws, \<^verbatim>\<open>ret\<close> still holds the value of the form
  before it, so the loop returns \<^verbatim>\<open>ret\<close> beside the outcome.
\<close>

fun try_body :: "evaluator \<Rightarrow> val \<Rightarrow> val list \<Rightarrow> state \<Rightarrow> val \<times> result \<times> state" where
  "try_body ev ret [] \<sigma> = (ret, Ok ret, \<sigma>)"
| "try_body ev ret (b # bs) \<sigma> =
     (case ev b \<sigma> of (Ok v, \<sigma>') \<Rightarrow> try_body ev v bs \<sigma>' | (r, \<sigma>') \<Rightarrow> (ret, r, \<sigma>'))"

text \<open>
  The test on the last argument: an array of length at least one whose first element is a
  \<^verbatim>\<open>Symbol\<close> with value \<^verbatim>\<open>catch\<close>.
\<close>

definition is_catch :: "state \<Rightarrow> val \<Rightarrow> bool" where
  "is_catch \<sigma> lastExpression =
     (case lastExpression of
        Arr c \<Rightarrow> (case arrs \<sigma> c of Sym r # rest \<Rightarrow> syms \<sigma> r = ''catch'' | _ \<Rightarrow> False)
      | _ \<Rightarrow> False)"

text \<open>\<^verbatim>\<open>catchExpression[0].value = "lambda"\<close>\<close>

definition rename_head :: "state \<Rightarrow> nat \<Rightarrow> result \<times> state" where
  "rename_head \<sigma> c =
     (case arrs \<sigma> c of
        [] \<Rightarrow> (Throw type_error, \<sigma>)
      | x # rest \<Rightarrow>
          (case x of
             Sym r \<Rightarrow> (Ok Undefined, \<sigma>\<lparr>syms := (syms \<sigma>)(r := ''lambda'')\<rparr>)
           | Obj r \<Rightarrow> js_assign \<sigma> r ''value'' (Str ''lambda'')
           | Undefined \<Rightarrow> (Throw type_error, \<sigma>)
           | Null \<Rightarrow> (Throw type_error, \<sigma>)
           | _ \<Rightarrow> (Unmodelled, \<sigma>)))"

text \<open>\<^verbatim>\<open>if (catchExpression.length === 1) catchExpression.push([]);\<close>\<close>

definition push_arglist :: "state \<Rightarrow> nat \<Rightarrow> state" where
  "push_arglist \<sigma> c =
     (if length (arrs \<sigma> c) = 1
      then \<sigma>\<lparr>arrs := (arrs \<sigma>)(next_arr \<sigma> := [], c := arrs \<sigma> c @ [Arr (next_arr \<sigma>)]),
             next_arr := Suc (next_arr \<sigma>)\<rparr>
      else \<sigma>)"

text \<open>The \<^verbatim>\<open>catch (e)\<close> block, entered with \<^verbatim>\<open>ret\<close> as the loop left it.\<close>

definition catch_block ::
  "host \<Rightarrow> evaluator \<Rightarrow> nat \<Rightarrow> val \<Rightarrow> val \<Rightarrow> state \<Rightarrow> result \<times> state" where
  "catch_block h ev c ret e \<sigma> =
     (case rename_head \<sigma> c of
        (Ok u, \<sigma>1) \<Rightarrow>
          (case ev (Arr c) (push_arglist \<sigma>1 c) of
             (Ok callback, \<sigma>2) \<Rightarrow>
               (case call_fn h ev callback (plain_this h) [e] \<sigma>2 of
                  (Ok v, \<sigma>3) \<Rightarrow> (Ok ret, \<sigma>3)
                | (r, \<sigma>3) \<Rightarrow> (r, \<sigma>3))
           | (r, \<sigma>2) \<Rightarrow> (r, \<sigma>2))
      | (r, \<sigma>1) \<Rightarrow> (r, \<sigma>1))"

definition try_macro :: "host \<Rightarrow> evaluator \<Rightarrow> val list \<Rightarrow> state \<Rightarrow> result \<times> state" where
  "try_macro h ev args \<sigma> =
     (let lastExpression = (if args = [] then Undefined else last args);
          has_catch = is_catch \<sigma> lastExpression;
          body = (if has_catch then butlast args else args)
      in case try_body ev Null body \<sigma> of
           (ret, Throw e, \<sigma>1) \<Rightarrow>
             (if has_catch
              then (case lastExpression of
                      Arr c \<Rightarrow> catch_block h ev c ret e \<sigma>1
                    | _ \<Rightarrow> (Throw e, \<sigma>1))
              else (Throw e, \<sigma>1))
         | (ret, r, \<sigma>1) \<Rightarrow> (r, \<sigma>1))"

subsection \<open>let, setq, progn, if, when\<close>

text \<open>
  The binding loop of \<^verbatim>\<open>let\<close>. It reads \<^verbatim>\<open>letset.length\<close> and \<^verbatim>\<open>letset[i]\<close> again on
  every round, after the evaluator has run, so the loop is driven by the index and bounded
  by the fuel \<open>k\<close>.
\<close>

primrec let_loop ::
  "host \<Rightarrow> evaluator \<Rightarrow> nat \<Rightarrow> val \<Rightarrow> nat \<Rightarrow> state \<Rightarrow> result \<times> state" where
  "let_loop h ev 0 letset i \<sigma> = (Timeout, \<sigma>)"
| "let_loop h ev (Suc k) letset i \<sigma> =
     (case js_length \<sigma> letset of
        Inl r \<Rightarrow> (r, \<sigma>)
      | Inr n \<Rightarrow>
          if i < n then
            (case js_index \<sigma> letset i of
               Inl r \<Rightarrow> (r, \<sigma>)
             | Inr pair \<Rightarrow>
                 (case js_index \<sigma> pair 0 of
                    Inl r \<Rightarrow> (r, \<sigma>)
                  | Inr symbol \<Rightarrow>
                      (case js_index \<sigma> pair 1 of
                         Inl r \<Rightarrow> (r, \<sigma>)
                       | Inr expr \<Rightarrow>
                           (case ev expr \<sigma> of
                              (Ok v, \<sigma>1) \<Rightarrow>
                                (case cur_let h \<sigma>1 symbol v of
                                   (Ok u, \<sigma>2) \<Rightarrow> let_loop h ev k letset (Suc i) \<sigma>2
                                 | (r, \<sigma>2) \<Rightarrow> (r, \<sigma>2))
                            | (r, \<sigma>1) \<Rightarrow> (r, \<sigma>1)))))
          else (Ok Undefined, \<sigma>))"

definition let_macro ::
  "host \<Rightarrow> evaluator \<Rightarrow> nat \<Rightarrow> val list \<Rightarrow> state \<Rightarrow> result \<times> state" where
  "let_macro h ev k args \<sigma> =
     (let letset = arg_at args 0;
          (e, \<sigma>0) = new_Env h (lisp_env \<sigma>) \<sigma>
      in case let_loop h ev k letset 0 (\<sigma>0\<lparr>lisp_env := e\<rparr>) of
           (Ok u, \<sigma>1) \<Rightarrow>
             (case eval_body ev Null (drop 1 args) \<sigma>1 of
                (Ok ret, \<sigma>2) \<Rightarrow> pop_env ret \<sigma>2
              | (r, \<sigma>2) \<Rightarrow> (r, \<sigma>2))
         | (r, \<sigma>1) \<Rightarrow> (r, \<sigma>1))"

definition setq_macro :: "host \<Rightarrow> evaluator \<Rightarrow> val list \<Rightarrow> state \<Rightarrow> result \<times> state" where
  "setq_macro h ev args \<sigma> =
     (let symbol = arg_at args 0
      in case ev (arg_at args 1) \<sigma> of
           (Ok v, \<sigma>1) \<Rightarrow>
             (case cur_set h \<sigma>1 symbol v of
                (Ok u, \<sigma>2) \<Rightarrow> (Ok v, \<sigma>2)
              | (r, \<sigma>2) \<Rightarrow> (r, \<sigma>2))
         | (r, \<sigma>1) \<Rightarrow> (r, \<sigma>1))"

definition progn_macro :: "evaluator \<Rightarrow> val list \<Rightarrow> state \<Rightarrow> result \<times> state" where
  "progn_macro ev args \<sigma> = eval_body ev Null args \<sigma>"

definition if_macro :: "evaluator \<Rightarrow> val list \<Rightarrow> state \<Rightarrow> result \<times> state" where
  "if_macro ev args \<sigma> =
     (if length args < 2
      then (Throw (Err (''(if) requires at least 2 arguments (got '' @ show_nat (length args) @ '')'')), \<sigma>)
      else (case ev (arg_at args 0) \<sigma> of
              (Ok t, \<sigma>1) \<Rightarrow>
                (if truthy t then ev (arg_at args 1) \<sigma>1
                 else eval_body ev Null (drop 2 args) \<sigma>1)
            | (r, \<sigma>1) \<Rightarrow> (r, \<sigma>1)))"

definition when_macro :: "evaluator \<Rightarrow> val list \<Rightarrow> state \<Rightarrow> result \<times> state" where
  "when_macro ev args \<sigma> =
     (if length args = 0
      then (Throw (Err (''(when) requires at least 1 argument (got '' @ show_nat (length args) @ '')'')), \<sigma>)
      else (case ev (arg_at args 0) \<sigma> of
              (Ok t, \<sigma>1) \<Rightarrow>
                (if truthy t
                 then (case eval_args ev (drop 1 args) \<sigma>1 of
                         (Inr vs, \<sigma>2) \<Rightarrow> (Ok (if vs = [] then Undefined else last vs), \<sigma>2)
                       | (Inl r, \<sigma>2) \<Rightarrow> (r, \<sigma>2))
                 else (Ok Null, \<sigma>1))
            | (r, \<sigma>1) \<Rightarrow> (r, \<sigma>1)))"

subsection \<open>Logic, comparison and type predicates\<close>

fun or_macro :: "evaluator \<Rightarrow> val list \<Rightarrow> state \<Rightarrow> result \<times> state" where
  "or_macro ev [] \<sigma> = (Ok (Bool False), \<sigma>)"
| "or_macro ev (a # as) \<sigma> =
     (case ev a \<sigma> of
        (Ok v, \<sigma>') \<Rightarrow> (if truthy v then (Ok (Bool True), \<sigma>') else or_macro ev as \<sigma>')
      | (r, \<sigma>') \<Rightarrow> (r, \<sigma>'))"

text \<open>
  Modelled from the spec: the helper \<^verbatim>\<open>predicate(args, test)\<close>, which the macros call and
  the sources do not hold. The specification gives its contract: the argument forms are
  resolved left to right, each at most once; the result is true iff every value passes the
  test, and resolution stops at the first value that fails it.
\<close>

fun predicate :: "evaluator \<Rightarrow> (val \<Rightarrow> bool) \<Rightarrow> val list \<Rightarrow> state \<Rightarrow> result \<times> state" where
  "predicate ev test [] \<sigma> = (Ok (Bool True), \<sigma>)"
| "predicate ev test (a # as) \<sigma> =
     (case ev a \<sigma> of
        (Ok v, \<sigma>') \<Rightarrow> (if test v then predicate ev test as \<sigma>' else (Ok (Bool False), \<sigma>'))
      | (r, \<sigma>') \<Rightarrow> (r, \<sigma>'))"

text \<open>
  Modelled from the spec: the helper \<^verbatim>\<open>comparator(args, test)\<close>, absent from the sources
  as well. The arguments are resolved left to right, each once, and compared pairwise with
  the one before; resolution stops as soon as a pair fails the test.
\<close>

fun compare_rest ::
  "evaluator \<Rightarrow> (val \<Rightarrow> val \<Rightarrow> bool) \<Rightarrow> val \<Rightarrow> val list \<Rightarrow> state \<Rightarrow> result \<times> state" where
  "compare_rest ev test a [] \<sigma> = (Ok (Bool True), \<sigma>)"
| "compare_rest ev test a (x # xs) \<sigma> =
     (case ev x \<sigma> of
        (Ok b, \<sigma>') \<Rightarrow> (if test a b then compare_rest ev test b xs \<sigma>' else (Ok (Bool False), \<sigma>'))
      | (r, \<sigma>') \<Rightarrow> (r, \<sigma>'))"

definition comparator ::
  "evaluator \<Rightarrow> (val \<Rightarrow> val \<Rightarrow> bool) \<Rightarrow> val list \<Rightarrow> state \<Rightarrow> result \<times> state" where
  "comparator ev test args \<sigma> =
     (case args of
        [] \<Rightarrow> (Ok (Bool True), \<sigma>)
      | x # xs \<Rightarrow>
          (case ev x \<sigma> of
             (Ok a, \<sigma>') \<Rightarrow> compare_rest ev test a xs \<sigma>'
           | (r, \<sigma>') \<Rightarrow> (r, \<sigma>')))"

definition not_macro :: "evaluator \<Rightarrow> val list \<Rightarrow> state \<Rightarrow> result \<times> state" where
  "not_macro ev args \<sigma> =
     (if length args = 0 then (Throw (Err ''(not) requires at least 1 argument''), \<sigma>)
      else predicate ev (\<lambda>v. \<not> truthy v) args \<sigma>)"

definition and_macro :: "evaluator \<Rightarrow> val list \<Rightarrow> state \<Rightarrow> result \<times> state" where
  "and_macro ev args \<sigma> =
     (if length args = 0 then (Ok (Bool True), \<sigma>)
      else predicate ev truthy args \<sigma>)"

text \<open>The name in the arity message; \<^verbatim>\<open><=\<close> and \<^verbatim>\<open>>=\<close> both say \<^verbatim>\<open>>\<close>.\<close>

fun cmp_name :: "cmpop \<Rightarrow> string" where
  "cmp_name LooseEq = ''==''"
| "cmp_name StrictEq = ''===''"
| "cmp_name LooseNe = ''!=''"
| "cmp_name StrictNe = ''!==''"
| "cmp_name Lt = ''<''"
| "cmp_name Gt = ''>''"
| "cmp_name Le = ''>''"
| "cmp_name Ge = ''>''"

definition cmp_macro :: "host \<Rightarrow> evaluator \<Rightarrow> cmpop \<Rightarrow> val list \<Rightarrow> state \<Rightarrow> result \<times> state" where
  "cmp_macro h ev op args \<sigma> =
     (if length args < 2
      then (Throw (Err (''Macro '' @ [CHR 0x27] @ cmp_name op @ [CHR 0x27] @ '' requires at least 2 arguments'')), \<sigma>)
      else comparator ev (compare h op) args \<sigma>)"

text \<open>\<^verbatim>\<open>typeof(v)\<close>\<close>

fun js_typeof :: "val \<Rightarrow> string" where
  "js_typeof Undefined = ''undefined''"
| "js_typeof (Bool b) = ''boolean''"
| "js_typeof (Num n) = ''number''"
| "js_typeof (Str s) = ''string''"
| "js_typeof (Fun f) = ''function''"
| "js_typeof (HostFn n) = ''function''"
| "js_typeof _ = ''object''"

fun is_test :: "ispred \<Rightarrow> val \<Rightarrow> bool" where
  "is_test IsTrue v = (v = Bool True)"
| "is_test IsFalse v = (v = Bool False)"
| "is_test IsNull v = (v = Null)"
| "is_test IsUndefined v = (v = Undefined)"
| "is_test IsString v = (js_typeof v = ''string'')"
| "is_test IsNumber v = (js_typeof v = ''number'')"
| "is_test IsBoolean v = (js_typeof v = ''boolean'')"
| "is_test IsFunction v = (js_typeof v = ''function'')"
| "is_test IsObject v = (js_typeof v = ''object'')"

definition is_macro :: "evaluator \<Rightarrow> ispred \<Rightarrow> val list \<Rightarrow> state \<Rightarrow> result \<times> state" where
  "is_macro ev q args \<sigma> = predicate ev (is_test q) args \<sigma>"

subsection \<open>Dispatch\<close>

text \<open>\<^verbatim>\<open>macro.callable.apply(..., args)\<close> for each macro that \<^verbatim>\<open>defmacro\<close> registers.\<close>

fun apply_macro ::
  "host \<Rightarrow> evaluator \<Rightarrow> nat \<Rightarrow> macro \<Rightarrow> val list \<Rightarrow> state \<Rightarrow> result \<times> state" where
  "apply_macro h ev k MLambda args \<sigma> = lambda_macro h args \<sigma>"
| "apply_macro h ev k MDefun args \<sigma> = defun_macro h args \<sigma>"
| "apply_macro h ev k MTry args \<sigma> = try_macro h ev args \<sigma>"
| "apply_macro h ev k MLet args \<sigma> = let_macro h ev k args \<sigma>"
| "apply_macro h ev k MSetq args \<sigma> = setq_macro h ev args \<sigma>"
| "apply_macro h ev k MProgn args \<sigma> = progn_macro ev args \<sigma>"
| "apply_macro h ev k MIf args \<sigma> = if_macro ev args \<sigma>"
| "apply_macro h ev k MWhen args \<sigma> = when_macro ev args \<sigma>"
| "apply_macro h ev k MNot args \<sigma> = not_macro ev args \<sigma>"
| "apply_macro h ev k MOr args \<sigma> = or_macro ev args \<sigma>"
| "apply_macro h ev k MAnd args \<sigma> = and_macro ev args \<sigma>"
| "apply_macro h ev k (MCmp op) args \<sigma> = cmp_macro h ev op args \<sigma>"
| "apply_macro h ev k (MIs q) args \<sigma> = is_macro ev q args \<sigma>"

section \<open>The evaluator\<close>

text \<open>
  Modelled from the spec: the evaluator \<^verbatim>\<open>resolve\<close>, which the sources call and do not
  hold. The rules are those of the specification: a form that is neither a symbol nor a
  list evaluates to itself; a symbol is looked up; the empty list is null; otherwise the
  head names the combiner, a macro gets the tail forms as they are, a function gets their
  values, resolved left to right, and anything else is an error. A head that is not a symbol
  is resolved first. A dotted head is a method call: the receiver is what the path before
  the last dot names.
\<close>

definition receiver :: "host \<Rightarrow> state \<Rightarrow> val \<Rightarrow> val" where
  "receiver h \<sigma> head =
     (case head of
        Sym r \<Rightarrow>
          (let parts = split_dot (syms \<sigma> r)
           in if length parts > 1
              then (case cur_get h \<sigma> (Str (join_dot (butlast parts))) of Ok v \<Rightarrow> v | _ \<Rightarrow> Undefined)
              else plain_this h)
      | _ \<Rightarrow> plain_this h)"

definition apply_function ::
  "host \<Rightarrow> evaluator \<Rightarrow> val \<Rightarrow> val \<Rightarrow> val list \<Rightarrow> state \<Rightarrow> result \<times> state" where
  "apply_function h ev f this tail \<sigma> =
     (case eval_args ev tail \<sigma> of
        (Inr vs, \<sigma>1) \<Rightarrow> call_fn h ev f this vs \<sigma>1
      | (Inl r, \<sigma>1) \<Rightarrow> (r, \<sigma>1))"

definition resolve_list ::
  "host \<Rightarrow> evaluator \<Rightarrow> nat \<Rightarrow> val \<Rightarrow> val list \<Rightarrow> state \<Rightarrow> result \<times> state" where
  "resolve_list h ev k head tail \<sigma> =
     (case (case head of Sym r \<Rightarrow> (cur_get h \<sigma> head, \<sigma>) | _ \<Rightarrow> ev head \<sigma>) of
        (Ok c, \<sigma>1) \<Rightarrow>
          (case c of
             Macro m \<Rightarrow>
               (case head of
                  Sym r \<Rightarrow> apply_macro h ev k m tail \<sigma>1
                | _ \<Rightarrow> (Throw (Err ''not callable''), \<sigma>1))
           | Fun f \<Rightarrow> apply_function h ev c (receiver h \<sigma>1 head) tail \<sigma>1
           | HostFn n \<Rightarrow> apply_function h ev c (receiver h \<sigma>1 head) tail \<sigma>1
           | _ \<Rightarrow> (Throw (Err ''not callable''), \<sigma>1))
      | (r, \<sigma>1) \<Rightarrow> (r, \<sigma>1))"

definition resolve_step ::
  "host \<Rightarrow> evaluator \<Rightarrow> nat \<Rightarrow> val \<Rightarrow> state \<Rightarrow> result \<times> state" where
  "resolve_step h ev k form \<sigma> =
     (case form of
        Sym r \<Rightarrow> (cur_get h \<sigma> form, \<sigma>)
      | Arr a \<Rightarrow>
          (case arrs \<sigma> a of
             [] \<Rightarrow> (Ok Null, \<sigma>)
           | head # tail \<Rightarrow> resolve_list h ev k head tail \<sigma>)
      | _ \<Rightarrow> (Ok form, \<sigma>))"

primrec resolve :: "host \<Rightarrow> nat \<Rightarrow> val \<Rightarrow> state \<Rightarrow> result \<times> state" where
  "resolve h 0 form \<sigma> = (Timeout, \<sigma>)"
| "resolve h (Suc k) form \<sigma> = resolve_step h (resolve h k) k form \<sigma>"

section \<open>Programs as the reader hands them over\<close>

text \<open>
  Modelled from the spec: the reader's output, which the sources do not hold. A program text
  is a tree of atoms, symbols and lists; the reader makes one new \<^verbatim>\<open>Symbol\<close> object for
  each symbol token and one new array for each list, exactly as written.
\<close>

datatype sexp = A val | S string | L "sexp list"

fun store_form :: "sexp \<Rightarrow> state \<Rightarrow> val \<times> state"
  and store_forms :: "sexp list \<Rightarrow> state \<Rightarrow> val list \<times> state" where
  "store_form (A v) \<sigma> = (v, \<sigma>)"
| "store_form (S name) \<sigma> =
     (Sym (next_sym \<sigma>), \<sigma>\<lparr>syms := (syms \<sigma>)(next_sym \<sigma> := name), next_sym := Suc (next_sym \<sigma>)\<rparr>)"
| "store_form (L xs) \<sigma> =
     (let (vs, \<sigma>1) = store_forms xs \<sigma>
      in (Arr (next_arr \<sigma>1), \<sigma>1\<lparr>arrs := (arrs \<sigma>1)(next_arr \<sigma>1 := vs), next_arr := Suc (next_arr \<sigma>1)\<rparr>))"
| "store_forms [] \<sigma> = ([], \<sigma>)"
| "store_forms (x # xs) \<sigma> =
     (let (v, \<sigma>1) = store_form x \<sigma>; (vs, \<sigma>2) = store_forms xs \<sigma>1 in (v # vs, \<sigma>2))"

text \<open>Read one form into the store and evaluate it with fuel \<open>k\<close>.\<close>

definition run :: "host \<Rightarrow> nat \<Rightarrow> sexp \<Rightarrow> state \<Rightarrow> result \<times> state" where
  "run h k x \<sigma> = (let (form, \<sigma>1) = store_form x \<sigma> in resolve h k form \<sigma>1)"

text \<open>
  A host for the examples: it compares integers as numbers do and everything else by
  identity, calls functions with receiver \<^verbatim>\<open>undefined\<close>, and its objects inherit the
  functions \<^verbatim>\<open>hasOwnProperty\<close> and \<^verbatim>\<open>toString\<close>. \<open>plain m\<close> is the \<^verbatim>\<open>{}\<close> of this host with the
  own properties \<open>m\<close>.
\<close>

definition int_compare :: "cmpop \<Rightarrow> val \<Rightarrow> val \<Rightarrow> bool" where
  "int_compare op a b =
     (case op of
        LooseEq \<Rightarrow> a = b
      | StrictEq \<Rightarrow> a = b
      | LooseNe \<Rightarrow> a \<noteq> b
      | StrictNe \<Rightarrow> a \<noteq> b
      | Lt \<Rightarrow> (case a of Num x \<Rightarrow> (case b of Num y \<Rightarrow> x < y | _ \<Rightarrow> False) | _ \<Rightarrow> False)
      | Gt \<Rightarrow> (case a of Num x \<Rightarrow> (case b of Num y \<Rightarrow> x > y | _ \<Rightarrow> False) | _ \<Rightarrow> False)
      | Le \<Rightarrow> (case a of Num x \<Rightarrow> (case b of Num y \<Rightarrow> x \<le> y | _ \<Rightarrow> False) | _ \<Rightarrow> False)
      | Ge \<Rightarrow> (case a of Num x \<Rightarrow> (case b of Num y \<Rightarrow> x \<ge> y | _ \<Rightarrow> False) | _ \<Rightarrow> False))"

definition example_host :: host where
  "example_host =
     \<lparr>compare = int_compare, plain_this = Undefined, to_string = (\<lambda>\<sigma> v. ''?''),
      object_proto =
        [''hasOwnProperty'' \<mapsto> HostFn ''Object.prototype.hasOwnProperty'',
         ''toString'' \<mapsto> HostFn ''Object.prototype.toString'']\<rparr>"

definition plain :: "(string \<rightharpoonup> val) \<Rightarrow> jsobj" where
  "plain m = \<lparr>own = m, inh = object_proto example_host, guarded = {''__proto__''}\<rparr>"

text \<open>
  The macros under the names \<^verbatim>\<open>defmacro\<close> registers them with.
\<close>

definition builtins :: "string \<rightharpoonup> val" where
  "builtins =
     [''lambda'' \<mapsto> Macro MLambda, ''defun'' \<mapsto> Macro MDefun, ''try'' \<mapsto> Macro MTry,
      ''let'' \<mapsto> Macro MLet, ''setq'' \<mapsto> Macro MSetq, ''progn'' \<mapsto> Macro MProgn,
      ''if'' \<mapsto> Macro MIf, ''when'' \<mapsto> Macro MWhen, ''not'' \<mapsto> Macro MNot,
      ''or'' \<mapsto> Macro MOr, ''and'' \<mapsto> Macro MAnd, ''=='' \<mapsto> Macro (MCmp LooseEq),
      ''<'' \<mapsto> Macro (MCmp Lt), ''is-null'' \<mapsto> Macro (MIs IsNull)]"

text \<open>
  An example start: object 0 is the host's global object, with one binding of its own; the
  \<^verbatim>\<open>Env\<close> over it holds it as symbol table, and the top-level frame, with table 1, holds
  the macros.
\<close>

definition example_state :: state where
  "example_state =
     \<lparr>lisp_env = Env (Env ENull 0) 1,
      objs = (\<lambda>r. plain Map.empty)(0 := plain [''answer'' \<mapsto> Num 42], 1 := plain builtins),
      next_obj = 2, arrs = (\<lambda>a. []), next_arr = 0, syms = (\<lambda>r. []), next_sym = 0,
      global = 0\<rparr>"

text \<open>
  A chain of frames, innermost first: \<open>chain [t1, t2] e\<close> is the \<^verbatim>\<open>Env\<close> with table \<open>t1\<close>
  whose parent is the \<^verbatim>\<open>Env\<close> with table \<open>t2\<close> whose parent is \<open>e\<close>.
\<close>

fun chain :: "nat list \<Rightarrow> env \<Rightarrow> env" where
  "chain [] e = e"
| "chain (t # ts) e = Env (chain ts e) t"

text \<open>
  An example with a host namespace that is no \<^verbatim>\<open>Env\<close>: object 0 is the host object, the
  frame with table 1 lies over it and the empty frame with table 2 is innermost.
\<close>

definition shadow_state :: state where
  "shadow_state =
     \<lparr>lisp_env = Env (Env (EHost 0) 1) 2,
      objs = (\<lambda>r. plain Map.empty)
               (0 := plain [''x'' \<mapsto> Num 5, ''y'' \<mapsto> Num 9, ''gone'' \<mapsto> Null],
                1 := plain [''x'' \<mapsto> Bool False, ''u'' \<mapsto> Undefined, ''toString'' \<mapsto> Num 1]),
      next_obj = 3, arrs = (\<lambda>a. []), next_arr = 0, syms = (\<lambda>r. []), next_sym = 0,
      global = 0\<rparr>"

section \<open>Short circuit\<close>

text \<open>
  The value that ends the evaluation of the arguments: \<^verbatim>\<open>or\<close> stops with true at the first
  truthy value; \<^verbatim>\<open>and\<close>, \<^verbatim>\<open>not\<close>, the comparisons and the type predicates stop with false
  at the first value, or pair of values, that fails their test.
\<close>

fun decisive :: "macro \<Rightarrow> bool option" where
  "decisive MOr = Some True"
| "decisive MAnd = Some False"
| "decisive MNot = Some False"
| "decisive (MCmp op) = Some False"
| "decisive (MIs q) = Some False"
| "decisive _ = None"

lemma or_macro_decided:
  "or_macro ev xs \<sigma> = (Ok (Bool True), \<sigma>') \<Longrightarrow> or_macro ev (xs @ ys) \<sigma> = (Ok (Bool True), \<sigma>')"
proof (induction xs arbitrary: \<sigma>)
  case Nil
  then show ?case by simp
next
  case (Cons x xs)
  obtain r \<sigma>1 where e: "ev x \<sigma> = (r, \<sigma>1)" by (cases "ev x \<sigma>")
  show ?case
  proof (cases r)
    case (Ok v)
    with Cons e show ?thesis by (cases "truthy v") auto
  qed (use Cons.prems e in auto)
qed

lemma predicate_decided:
  "predicate ev test xs \<sigma> = (Ok (Bool False), \<sigma>') \<Longrightarrow>
   predicate ev test (xs @ ys) \<sigma> = (Ok (Bool False), \<sigma>')"
proof (induction xs arbitrary: \<sigma>)
  case Nil
  then show ?case by simp
next
  case (Cons x xs)
  obtain r \<sigma>1 where e: "ev x \<sigma> = (r, \<sigma>1)" by (cases "ev x \<sigma>")
  show ?case
  proof (cases r)
    case (Ok v)
    with Cons e show ?thesis by (cases "test v") auto
  qed (use Cons.prems e in auto)
qed

lemma compare_rest_decided:
  "compare_rest ev test a xs \<sigma> = (Ok (Bool False), \<sigma>') \<Longrightarrow>
   compare_rest ev test a (xs @ ys) \<sigma> = (Ok (Bool False), \<sigma>')"
proof (induction xs arbitrary: a \<sigma>)
  case Nil
  then show ?case by simp
next
  case (Cons x xs)
  obtain r \<sigma>1 where e: "ev x \<sigma> = (r, \<sigma>1)" by (cases "ev x \<sigma>")
  show ?case
  proof (cases r)
    case (Ok v)
    with Cons e show ?thesis by (cases "test a v") auto
  qed (use Cons.prems e in auto)
qed

lemma comparator_decided:
  "comparator ev test xs \<sigma> = (Ok (Bool False), \<sigma>') \<Longrightarrow>
   comparator ev test (xs @ ys) \<sigma> = (Ok (Bool False), \<sigma>')"
proof (cases xs)
  case Nil
  assume "comparator ev test xs \<sigma> = (Ok (Bool False), \<sigma>')"
  with Nil show ?thesis by (simp add: comparator_def)
next
  case (Cons x xs')
  assume a: "comparator ev test xs \<sigma> = (Ok (Bool False), \<sigma>')"
  obtain r \<sigma>1 where e: "ev x \<sigma> = (r, \<sigma>1)" by (cases "ev x \<sigma>")
  show ?thesis
  proof (cases r)
    case (Ok v)
    with a e Cons show ?thesis by (simp add: comparator_def compare_rest_decided)
  qed (use a e Cons in \<open>auto simp: comparator_def\<close>)
qed

text \<open>
  An example inside \<^verbatim>\<open>(let ((x 5)) ...)\<close>: the innermost frame, table 2, binds \<^verbatim>\<open>x\<close> to 5,
  and array 0 is the form \<^verbatim>\<open>(setq x 10)\<close>.
\<close>

definition sc_state :: state where
  "sc_state =
     example_state\<lparr>lisp_env := Env (lisp_env example_state) 2,
       objs := (objs example_state)(2 := plain [''x'' \<mapsto> Num 5]),
       next_obj := 3,
       arrs := (\<lambda>a. [])(0 := [Sym 0, Sym 1, Num 10]), next_arr := 1,
       syms := (\<lambda>r. [])(0 := ''setq'', 1 := ''x''), next_sym := 2\<rparr>"

text \<open>
  Claim C6. Whenever the arguments \<open>xs\<close> alone make one of these macros return its
  decisive value, the same call with any further argument forms \<open>ys\<close> after them returns
  the same value in the same state, for every evaluator: the forms past the decisive
  position are not resolved, so no side effect of theirs happens.
\<close>

theorem C6_short_circuit:
  assumes "decisive m = Some d"
    and "apply_macro h ev k m xs \<sigma> = (Ok (Bool d), \<sigma>')"
  shows "apply_macro h ev k m (xs @ ys) \<sigma> = (Ok (Bool d), \<sigma>')"
proof (cases m)
  case MOr
  with assms show ?thesis by (simp add: or_macro_decided)
next
  case MAnd
  with assms have "xs \<noteq> []" by (auto simp: and_macro_def)
  with MAnd assms show ?thesis by (simp add: and_macro_def predicate_decided)
next
  case MNot
  with assms have "xs \<noteq> []" by (auto simp: not_macro_def)
  with MNot assms show ?thesis by (simp add: not_macro_def predicate_decided)
next
  case (MCmp op)
  with assms have "\<not> length xs < 2" by (auto simp: cmp_macro_def)
  with MCmp assms show ?thesis by (simp add: cmp_macro_def comparator_decided)
next
  case (MIs q)
  with assms show ?thesis by (simp add: is_macro_def predicate_decided)
qed (use assms in auto)

lemma resolve_atoms:
  assumes "0 < k"
  shows "resolve h k (Num n) \<sigma> = (Ok (Num n), \<sigma>)"
    and "resolve h k (Bool b) \<sigma> = (Ok (Bool b), \<sigma>)"
    and "resolve h k (Str s) \<sigma> = (Ok (Str s), \<sigma>)"
    and "resolve h k Null \<sigma> = (Ok Null, \<sigma>)"
    and "resolve h k Undefined \<sigma> = (Ok Undefined, \<sigma>)"
  using assms by (cases k; simp add: resolve_step_def)+

theorem C6_witness:
  "apply_macro example_host (resolve example_host 3) 2 MOr [Null, Bool False, Bool True, Arr 0] sc_state
     = (Ok (Bool True), sc_state) \<and>
   apply_macro example_host (resolve example_host 3) 2 (MCmp LooseEq) [Num 2, Num 3, Arr 0] sc_state
     = (Ok (Bool False), sc_state) \<and>
   fst (resolve example_host 3 (Arr 0) sc_state) = Ok (Num 10) \<and>
   own (objs (snd (resolve example_host 3 (Arr 0) sc_state)) 2) ''x'' = Some (Num 10)"
proof -
  have a: "apply_macro example_host (resolve example_host 3) 2 MOr [Null, Bool False, Bool True] sc_state
             = (Ok (Bool True), sc_state)"
    by (simp add: resolve_atoms)
  have b: "apply_macro example_host (resolve example_host 3) 2 (MCmp LooseEq) [Num 2, Num 3] sc_state
             = (Ok (Bool False), sc_state)"
    by (simp add: resolve_atoms cmp_macro_def comparator_def example_host_def int_compare_def)
  have c: "fst (resolve example_host 3 (Arr 0) sc_state) = Ok (Num 10) \<and>
           own (objs (snd (resolve example_host 3 (Arr 0) sc_state)) 2) ''x'' = Some (Num 10)"
    by code_simp
  from C6_short_circuit [where m = MOr and d = True and ys = "[Arr 0]", OF _ a]
       C6_short_circuit [where m = "MCmp LooseEq" and d = False and ys = "[Arr 0]", OF _ b] c
  show ?thesis by simp
qed

section \<open>try\<close>

text \<open>
  The forms \<^verbatim>\<open>try\<close> runs as its body: all arguments, without the last one when that is a
  catch clause. \<open>completed\<close> lists the values of the forms that finish, in order, up to the
  first that does not.
\<close>

definition has_catch_clause :: "state \<Rightarrow> val list \<Rightarrow> bool" where
  "has_catch_clause \<sigma> args = (args \<noteq> [] \<and> is_catch \<sigma> (last args))"

definition try_forms :: "state \<Rightarrow> val list \<Rightarrow> val list" where
  "try_forms \<sigma> args = (if has_catch_clause \<sigma> args then butlast args else args)"

fun completed :: "evaluator \<Rightarrow> val list \<Rightarrow> state \<Rightarrow> val list" where
  "completed ev [] \<sigma> = []"
| "completed ev (b # bs) \<sigma> =
     (case ev b \<sigma> of (Ok v, \<sigma>') \<Rightarrow> v # completed ev bs \<sigma>' | (r, \<sigma>') \<Rightarrow> [])"

lemma try_body_eval:
  "try_body ev ret bs \<sigma> = (x, r, \<sigma>1) \<Longrightarrow> eval_body ev ret bs \<sigma> = (r, \<sigma>1)"
proof (induction bs arbitrary: ret \<sigma>)
  case Nil
  then show ?case by auto
next
  case (Cons b bs)
  obtain q \<sigma>' where e: "ev b \<sigma> = (q, \<sigma>')" by (cases "ev b \<sigma>")
  with Cons show ?case by (cases q) auto
qed

lemma try_body_ret:
  "try_body ev ret bs \<sigma> = (x, r, \<sigma>1) \<Longrightarrow>
   x = last (ret # completed ev bs \<sigma>) \<and> (\<forall>y. r = Ok y \<longrightarrow> y = x)"
proof (induction bs arbitrary: ret \<sigma>)
  case Nil
  then show ?case by auto
next
  case (Cons b bs)
  obtain q \<sigma>' where e: "ev b \<sigma> = (q, \<sigma>')" by (cases "ev b \<sigma>")
  show ?case
  proof (cases q)
    case (Ok v)
    with Cons.prems e have "try_body ev v bs \<sigma>' = (x, r, \<sigma>1)" by simp
    from Cons.IH [OF this]
    have 1: "x = last (v # completed ev bs \<sigma>')" and 2: "\<forall>y. r = Ok y \<longrightarrow> y = x" by blast+
    have "completed ev (b # bs) \<sigma> = v # completed ev bs \<sigma>'"
      using Ok e by simp
    then have "last (ret # completed ev (b # bs) \<sigma>) = last (v # completed ev bs \<sigma>')"
      by (simp only: last.simps list.distinct if_False)
    with 1 2 show ?thesis by (simp only:)
  next
    case (Throw t)
    with Cons.prems e have "x = ret" "r = Throw t" by simp_all
    moreover have "completed ev (b # bs) \<sigma> = []" using Throw e by simp
    ultimately show ?thesis by simp
  next
    case Timeout
    with Cons.prems e have "x = ret" "r = Timeout" by simp_all
    moreover have "completed ev (b # bs) \<sigma> = []" using Timeout e by simp
    ultimately show ?thesis by simp
  next
    case Unmodelled
    with Cons.prems e have "x = ret" "r = Unmodelled" by simp_all
    moreover have "completed ev (b # bs) \<sigma> = []" using Unmodelled e by simp
    ultimately show ?thesis by simp
  qed
qed

lemma try_body_total:
  "\<exists>x. try_body ev ret bs \<sigma> = (x, eval_body ev ret bs \<sigma>)"
proof (induction bs arbitrary: ret \<sigma>)
  case Nil
  then show ?case by simp
next
  case (Cons b bs)
  obtain q \<sigma>' where e: "ev b \<sigma> = (q, \<sigma>')" by (cases "ev b \<sigma>")
  with Cons show ?case by (cases q) auto
qed

lemma try_macro_unfold:
  "try_macro h ev args \<sigma> =
     (case try_body ev Null (try_forms \<sigma> args) \<sigma> of
        (ret, Throw e, \<sigma>1) \<Rightarrow>
          (if has_catch_clause \<sigma> args
           then (case last args of Arr c \<Rightarrow> catch_block h ev c ret e \<sigma>1 | _ \<Rightarrow> (Throw e, \<sigma>1))
           else (Throw e, \<sigma>1))
      | (ret, r, \<sigma>1) \<Rightarrow> (r, \<sigma>1))"
  unfolding try_macro_def try_forms_def has_catch_clause_def Let_def
  by (cases "args = []") (simp_all add: is_catch_def split: prod.split result.split)

lemma catch_block_ret:
  "catch_block h ev c ret e \<sigma> = (Ok v, \<sigma>') \<Longrightarrow> v = ret"
  by (auto simp: catch_block_def split: prod.splits result.splits)

text \<open>
  An example: array 0 is \<^verbatim>\<open>(if)\<close>, which throws for want of arguments, and array 1 is the
  clause \<^verbatim>\<open>(catch (e) 99)\<close>, with parameter list array 2; array 3 is \<^verbatim>\<open>(catch)\<close>.
\<close>

definition try_state :: state where
  "try_state =
     example_state\<lparr>
       arrs := (\<lambda>a. [])(0 := [Sym 0], 1 := [Sym 1, Arr 2, Num 99], 2 := [Sym 2], 3 := [Sym 3]),
       next_arr := 4,
       syms := (\<lambda>r. [])(0 := ''if'', 1 := ''catch'', 2 := ''e'', 3 := ''catch''), next_sym := 4\<rparr>"

lemmas eval_defs =
  resolve_step_def resolve_list_def apply_function_def receiver_def call_fn_def call_lambda_def
  call_defun_def lambda_macro_def defun_macro_def try_macro_def catch_block_def rename_head_def
  push_arglist_def is_catch_def let_macro_def setq_macro_def progn_macro_def if_macro_def
  when_macro_def not_macro_def and_macro_def cmp_macro_def is_macro_def comparator_def
  cur_get_def cur_set_def cur_let_def pop_env_def new_Env_def Env_get_def js_String_def
  prop_read_def obj_write_def js_assign_def hasOwnProperty_def arg_at_def host_method_def
  type_error_def

text \<open>
  Claim C9. Whenever \<^verbatim>\<open>try\<close> returns a value, it is the value of the last body form that
  finished before any error, and null when none did; a handler that ran has its own value
  dropped.
\<close>

theorem C9_try_value:
  assumes "try_macro h ev args \<sigma> = (Ok v, \<sigma>')"
  shows "v = last (Null # completed ev (try_forms \<sigma> args) \<sigma>)"
proof -
  obtain ret r \<sigma>1 where b: "try_body ev Null (try_forms \<sigma> args) \<sigma> = (ret, r, \<sigma>1)"
    using prod_cases3 by blast
  from try_body_ret [OF b]
  have ret: "ret = last (Null # completed ev (try_forms \<sigma> args) \<sigma>)"
    and ok: "\<forall>y. r = Ok y \<longrightarrow> y = ret" by blast+
  from assms b have u: "(case r of
        Throw e \<Rightarrow>
          (if has_catch_clause \<sigma> args
           then (case last args of Arr c \<Rightarrow> catch_block h ev c ret e \<sigma>1 | _ \<Rightarrow> (Throw e, \<sigma>1))
           else (Throw e, \<sigma>1))
      | _ \<Rightarrow> (r, \<sigma>1)) = (Ok v, \<sigma>')"
    by (cases r) (simp_all add: try_macro_unfold)
  show ?thesis
  proof (cases r)
    case (Ok y)
    with u ok ret show ?thesis by simp
  next
    case (Throw e)
    with u have t: "(if has_catch_clause \<sigma> args
           then (case last args of Arr c \<Rightarrow> catch_block h ev c ret e \<sigma>1 | _ \<Rightarrow> (Throw e, \<sigma>1))
           else (Throw e, \<sigma>1)) = (Ok v, \<sigma>')"
      by simp
    then have hc: "has_catch_clause \<sigma> args" by (cases "has_catch_clause \<sigma> args") simp_all
    with t have "\<exists>c. catch_block h ev c ret e \<sigma>1 = (Ok v, \<sigma>')"
      by (cases "last args") auto
    then show ?thesis using ret catch_block_ret by blast
  next
    case Timeout
    with u show ?thesis by simp
  next
    case Unmodelled
    with u show ?thesis by simp
  qed
qed

theorem C9_witness:
  "fst (try_macro example_host (resolve example_host 3) [Num 1, Arr 0, Arr 1] try_state) = Ok (Num 1) \<and>
   Num 1 = last (Null # completed (resolve example_host 3)
                          (try_forms try_state [Num 1, Arr 0, Arr 1]) try_state) \<and>
   completed (resolve example_host 3) (try_forms try_state [Num 1, Arr 0, Arr 1]) try_state = [Num 1] \<and>
   fst (try_macro example_host (resolve example_host 3) [Arr 0, Arr 1] try_state) = Ok Null"
proof -
  have a: "fst (try_macro example_host (resolve example_host 3) [Num 1, Arr 0, Arr 1] try_state) = Ok (Num 1)"
    by code_simp
  then have b: "try_macro example_host (resolve example_host 3) [Num 1, Arr 0, Arr 1] try_state
     = (Ok (Num 1), snd (try_macro example_host (resolve example_host 3) [Num 1, Arr 0, Arr 1] try_state))"
    by (metis prod.collapse)
  have c: "completed (resolve example_host 3) (try_forms try_state [Num 1, Arr 0, Arr 1]) try_state = [Num 1]"
    by code_simp
  have d: "fst (try_macro example_host (resolve example_host 3) [Arr 0, Arr 1] try_state) = Ok Null"
    by code_simp
  from a C9_try_value [OF b] c d show ?thesis by blast
qed

lemma eval_body_append:
  "eval_body ev ret (xs @ ys) \<sigma> =
     (case eval_body ev ret xs \<sigma> of (Ok v, \<sigma>') \<Rightarrow> eval_body ev v ys \<sigma>' | (r, \<sigma>') \<Rightarrow> (r, \<sigma>'))"
proof (induction xs arbitrary: ret \<sigma>)
  case Nil
  then show ?case by simp
next
  case (Cons x xs)
  obtain q \<sigma>' where e: "ev x \<sigma> = (q, \<sigma>')" by (cases "ev x \<sigma>")
  with Cons show ?case by (cases q) simp_all
qed

lemma try_body_split:
  assumes "eval_body ev Null bs \<sigma> = (r, \<sigma>1)"
  shows "try_body ev Null bs \<sigma> = (last (Null # completed ev bs \<sigma>), r, \<sigma>1)"
proof -
  obtain x where x: "try_body ev Null bs \<sigma> = (x, eval_body ev Null bs \<sigma>)"
    using try_body_total by blast
  with assms have t: "try_body ev Null bs \<sigma> = (x, r, \<sigma>1)" by simp
  from try_body_ret [OF t] t show ?thesis by simp
qed

lemma try_macro_no_clause:
  assumes "\<not> has_catch_clause \<sigma> args"
  shows "try_macro h ev args \<sigma> = eval_body ev Null args \<sigma>"
proof -
  obtain r \<sigma>1 where e: "eval_body ev Null args \<sigma> = (r, \<sigma>1)"
    by (cases "eval_body ev Null args \<sigma>")
  have f: "try_forms \<sigma> args = args" using assms by (simp add: try_forms_def)
  from try_body_split [OF e] f assms e show ?thesis
    by (cases r) (simp_all add: try_macro_unfold)
qed

text \<open>The store after \<^verbatim>\<open>try\<close> has rewritten its clause \<open>c\<close>, whose head is the symbol \<open>r\<close>.\<close>

definition clause_rewritten :: "state \<Rightarrow> nat \<Rightarrow> nat \<Rightarrow> state" where
  "clause_rewritten \<sigma> c r = push_arglist (\<sigma>\<lparr>syms := (syms \<sigma>)(r := ''lambda'')\<rparr>) c"

lemma catch_block_unfold:
  assumes "arrs \<sigma>1 c = Sym r # rest"
  shows "catch_block h ev c ret e \<sigma>1 =
     (case ev (Arr c) (clause_rewritten \<sigma>1 c r) of
        (Ok callback, \<sigma>3) \<Rightarrow>
          (case call_fn h ev callback (plain_this h) [e] \<sigma>3 of
             (Ok v, \<sigma>4) \<Rightarrow> (Ok ret, \<sigma>4)
           | (q, \<sigma>4) \<Rightarrow> (q, \<sigma>4))
      | (q, \<sigma>3) \<Rightarrow> (q, \<sigma>3))"
  using assms by (simp add: catch_block_def rename_head_def clause_rewritten_def)

lemma try_macro_caught:
  assumes "has_catch_clause \<sigma> args" and "last args = Arr c"
    and "eval_body ev Null (try_forms \<sigma> args) \<sigma> = (Throw e, \<sigma>1)"
    and "arrs \<sigma>1 c = Sym r # rest"
  shows "try_macro h ev args \<sigma> =
     (case ev (Arr c) (clause_rewritten \<sigma>1 c r) of
        (Ok callback, \<sigma>3) \<Rightarrow>
          (case call_fn h ev callback (plain_this h) [e] \<sigma>3 of
             (Ok v, \<sigma>4) \<Rightarrow> (Ok (last (Null # completed ev (try_forms \<sigma> args) \<sigma>)), \<sigma>4)
           | (q, \<sigma>4) \<Rightarrow> (q, \<sigma>4))
      | (q, \<sigma>3) \<Rightarrow> (q, \<sigma>3))"
  using try_body_split [OF assms(3)] assms(1,2) catch_block_unfold [OF assms(4)]
  by (simp add: try_macro_unfold del: last.simps)

text \<open>
  Claim C7. The body forms are run in order by the loop \<open>eval_body\<close>. If they all finish,
  \<^verbatim>\<open>try\<close> returns as the loop does. If one throws \<open>e\<close> and there is no catch clause, \<open>e\<close> is
  thrown on. If one throws \<open>e\<close> and the last argument is the clause \<open>c\<close>, whose head is the
  symbol \<open>r\<close> named \<^verbatim>\<open>catch\<close>, the clause is rewritten (its head renamed to \<^verbatim>\<open>lambda\<close>, an
  empty parameter list appended when the clause has nothing but its head) and evaluated;
  where the evaluator hands it to the \<^verbatim>\<open>lambda\<close> macro, as it does when \<^verbatim>\<open>lambda\<close> names that
  macro, the result is the function whose parameter list and body are the clause's, and
  \<^verbatim>\<open>try\<close> calls it with the one argument \<open>e\<close>.
\<close>

theorem C7_try_catch:
  "(eval_body ev Null (try_forms \<sigma> args) \<sigma> = (Ok v, \<rho>) \<longrightarrow>
      try_macro h ev args \<sigma> = (Ok v, \<rho>)) \<and>
   (eval_body ev Null (try_forms \<sigma> args) \<sigma> = (Throw e, \<rho>) \<and> \<not> has_catch_clause \<sigma> args \<longrightarrow>
      try_macro h ev args \<sigma> = (Throw e, \<rho>)) \<and>
   (eval_body ev Null (try_forms \<sigma> args) \<sigma> = (Throw e, \<rho>) \<and> has_catch_clause \<sigma> args \<and>
    last args = Arr c \<and> arrs \<rho> c = Sym r # rest \<and> c \<noteq> next_arr \<rho> \<and>
    \<tau> = clause_rewritten \<rho> c r \<and> ev (Arr c) \<tau> = lambda_macro h (tl (arrs \<tau> c)) \<tau> \<longrightarrow>
      syms \<tau> r = ''lambda'' \<and>
      arrs \<tau> c = (if rest = [] then [Sym r, Arr (next_arr \<rho>)] else Sym r # rest) \<and>
      (rest = [] \<longrightarrow> arrs \<tau> (next_arr \<rho>) = []) \<and>
      try_macro h ev args \<sigma> =
        (case call_lambda h ev (Env (lisp_env \<tau>) (next_obj \<tau>)) (arg_at (tl (arrs \<tau> c)) 0)
                (drop 1 (tl (arrs \<tau> c))) (plain_this h) [e] (snd (new_Env h (lisp_env \<tau>) \<tau>)) of
           (Ok w, \<sigma>4) \<Rightarrow> (Ok (last (Null # completed ev (try_forms \<sigma> args) \<sigma>)), \<sigma>4)
         | (q, \<sigma>4) \<Rightarrow> (q, \<sigma>4)))"
proof (intro conjI impI)
  assume a: "eval_body ev Null (try_forms \<sigma> args) \<sigma> = (Ok v, \<rho>)"
  from try_body_split [OF a] show "try_macro h ev args \<sigma> = (Ok v, \<rho>)"
    by (simp add: try_macro_unfold)
next
  assume a: "eval_body ev Null (try_forms \<sigma> args) \<sigma> = (Throw e, \<rho>) \<and> \<not> has_catch_clause \<sigma> args"
  from try_body_split [of ev "try_forms \<sigma> args" \<sigma> "Throw e" \<rho>] a
  show "try_macro h ev args \<sigma> = (Throw e, \<rho>)"
    by (simp add: try_macro_unfold)
next
  assume a: "eval_body ev Null (try_forms \<sigma> args) \<sigma> = (Throw e, \<rho>) \<and> has_catch_clause \<sigma> args \<and>
    last args = Arr c \<and> arrs \<rho> c = Sym r # rest \<and> c \<noteq> next_arr \<rho> \<and>
    \<tau> = clause_rewritten \<rho> c r \<and> ev (Arr c) \<tau> = lambda_macro h (tl (arrs \<tau> c)) \<tau>"
  then show "syms \<tau> r = ''lambda''"
    by (simp add: clause_rewritten_def push_arglist_def)
  from a show "arrs \<tau> c = (if rest = [] then [Sym r, Arr (next_arr \<rho>)] else Sym r # rest)"
    by (simp add: clause_rewritten_def push_arglist_def)
  show "arrs \<tau> (next_arr \<rho>) = []" if "rest = []"
    using a that by (simp add: clause_rewritten_def push_arglist_def)
  from a have c: "try_macro h ev args \<sigma> =
     (case ev (Arr c) \<tau> of
        (Ok callback, \<sigma>3) \<Rightarrow>
          (case call_fn h ev callback (plain_this h) [e] \<sigma>3 of
             (Ok v, \<sigma>4) \<Rightarrow> (Ok (last (Null # completed ev (try_forms \<sigma> args) \<sigma>)), \<sigma>4)
           | (q, \<sigma>4) \<Rightarrow> (q, \<sigma>4))
      | (q, \<sigma>3) \<Rightarrow> (q, \<sigma>3))"
    using try_macro_caught [of \<sigma> args c ev e \<rho> r rest h] by (simp del: last.simps)
  from a have "ev (Arr c) \<tau> = lambda_macro h (tl (arrs \<tau> c)) \<tau>" by blast
  then show "try_macro h ev args \<sigma> =
        (case call_lambda h ev (Env (lisp_env \<tau>) (next_obj \<tau>)) (arg_at (tl (arrs \<tau> c)) 0)
                (drop 1 (tl (arrs \<tau> c))) (plain_this h) [e] (snd (new_Env h (lisp_env \<tau>) \<tau>)) of
           (Ok w, \<sigma>4) \<Rightarrow> (Ok (last (Null # completed ev (try_forms \<sigma> args) \<sigma>)), \<sigma>4)
         | (q, \<sigma>4) \<Rightarrow> (q, \<sigma>4))"
    unfolding c by (simp add: lambda_macro_def new_Env_def call_fn_def del: last.simps)
qed

lemma resolve_macro_form:
  assumes "arrs \<tau> c = Sym r # tail" and "cur_get h \<tau> (Sym r) = Ok (Macro m)"
  shows "resolve h (Suc k) (Arr c) \<tau> = apply_macro h (resolve h k) k m tail \<tau>"
  using assms by (simp add: resolve_step_def resolve_list_def)

text \<open>The state in which the error of \<^verbatim>\<open>(try 1 (if) ...)\<close> reaches \<^verbatim>\<open>try\<close>, from \<open>try_state\<close>.\<close>

definition caught_state :: state where
  "caught_state = snd (eval_body (resolve example_host 3) Null [Num 1, Arr 0] try_state)"

theorem C7_witness:
  "try_macro example_host (resolve example_host 3) [Num 1, Arr 0] try_state
     = (Throw (Err ''(if) requires at least 2 arguments (got 0)''), caught_state) \<and>
   syms (clause_rewritten caught_state 1 1) 1 = ''lambda'' \<and>
   arrs (clause_rewritten caught_state 1 1) 1 = [Sym 1, Arr 2, Num 99] \<and>
   try_macro example_host (resolve example_host 3) [Num 1, Arr 0, Arr 1] try_state =
     (case call_lambda example_host (resolve example_host 3)
             (Env (lisp_env (clause_rewritten caught_state 1 1))
                  (next_obj (clause_rewritten caught_state 1 1)))
             (arg_at (tl (arrs (clause_rewritten caught_state 1 1) 1)) 0)
             (drop 1 (tl (arrs (clause_rewritten caught_state 1 1) 1)))
             (plain_this example_host) [Err ''(if) requires at least 2 arguments (got 0)'']
             (snd (new_Env example_host (lisp_env (clause_rewritten caught_state 1 1))
                     (clause_rewritten caught_state 1 1))) of
        (Ok w, \<sigma>4) \<Rightarrow>
          (Ok (last (Null # completed (resolve example_host 3)
                               (try_forms try_state [Num 1, Arr 0, Arr 1]) try_state)), \<sigma>4)
      | (q, \<sigma>4) \<Rightarrow> (q, \<sigma>4)) \<and>
   fst (try_macro example_host (resolve example_host 3) [Num 1, Arr 0, Arr 1] try_state) = Ok (Num 1)"
proof -
  let ?e = "Err ''(if) requires at least 2 arguments (got 0)''"
  let ?ev = "resolve example_host 3"
  let ?t = "clause_rewritten caught_state 1 1"
  have "fst (eval_body ?ev Null [Num 1, Arr 0] try_state) = Throw ?e"
    by code_simp
  then have body: "eval_body ?ev Null [Num 1, Arr 0] try_state = (Throw ?e, caught_state)"
    unfolding caught_state_def by (metis prod.collapse)
  have f2: "try_forms try_state [Num 1, Arr 0] = [Num 1, Arr 0]"
    by (simp add: try_forms_def has_catch_clause_def is_catch_def try_state_def)
  have f3: "try_forms try_state [Num 1, Arr 0, Arr 1] = [Num 1, Arr 0]"
    by (simp add: try_forms_def has_catch_clause_def is_catch_def try_state_def)
  have n2: "\<not> has_catch_clause try_state [Num 1, Arr 0]"
    by (simp add: has_catch_clause_def is_catch_def try_state_def)
  have c3: "has_catch_clause try_state [Num 1, Arr 0, Arr 1]"
    by (simp add: has_catch_clause_def is_catch_def try_state_def)
  have a1: "arrs caught_state 1 = Sym 1 # [Arr 2, Num 99]"
    unfolding caught_state_def by code_simp
  have a2: "1 \<noteq> next_arr caught_state"
    unfolding caught_state_def by code_simp
  have a3: "arrs ?t 1 = Sym 1 # [Arr 2, Num 99]"
    unfolding caught_state_def by code_simp
  have a4: "cur_get example_host ?t (Sym 1) = Ok (Macro MLambda)"
    unfolding caught_state_def by code_simp
  have "resolve example_host (Suc 2) (Arr 1) ?t
          = apply_macro example_host (resolve example_host 2) 2 MLambda [Arr 2, Num 99] ?t"
    using a3 a4 by (rule resolve_macro_form)
  then have a5: "?ev (Arr 1) ?t = lambda_macro example_host (tl (arrs ?t 1)) ?t"
    using a3 by (simp add: eval_nat_numeral)
  have w1: "try_macro example_host ?ev [Num 1, Arr 0] try_state = (Throw ?e, caught_state)"
    using C7_try_catch [where ev = "?ev" and \<sigma> = try_state and args = "[Num 1, Arr 0]"
        and e = "?e" and \<rho> = caught_state and h = example_host,
        THEN conjunct2, THEN conjunct1] body f2 n2
    by simp
  note b = C7_try_catch [where ev = "?ev" and \<sigma> = try_state and args = "[Num 1, Arr 0, Arr 1]"
        and e = "?e" and \<rho> = caught_state and h = example_host and c = 1 and r = 1
        and rest = "[Arr 2, Num 99]" and \<tau> = "?t",
        THEN conjunct2, THEN conjunct2, THEN mp]
  have hyp: "eval_body ?ev Null (try_forms try_state [Num 1, Arr 0, Arr 1]) try_state = (Throw ?e, caught_state) \<and>
      has_catch_clause try_state [Num 1, Arr 0, Arr 1] \<and>
      last [Num 1, Arr 0, Arr 1] = Arr 1 \<and> arrs caught_state 1 = Sym 1 # [Arr 2, Num 99] \<and>
      1 \<noteq> next_arr caught_state \<and> ?t = clause_rewritten caught_state 1 1 \<and>
      ?ev (Arr 1) ?t = lambda_macro example_host (tl (arrs ?t 1)) ?t"
    using body f3 c3 a1 a2 a5 by simp
  have w4: "fst (try_macro example_host ?ev [Num 1, Arr 0, Arr 1] try_state) = Ok (Num 1)"
    by code_simp
  from b [OF hyp] w1 w4 show ?thesis by simp
qed

lemma renamed_is_no_clause:
  assumes "last args = Arr c" and "arrs \<sigma> c = Sym r # rest" and "syms \<sigma> r = ''lambda''"
  shows "\<not> has_catch_clause \<sigma> args"
  using assms by (simp add: has_catch_clause_def is_catch_def)

text \<open>
  Claim C10. When the catch clause \<open>c\<close> of a \<^verbatim>\<open>try\<close> form fires, everything that follows --
  the evaluation of the clause, the call of the handler, the rest of the program -- runs on
  the store \<open>\<tau>\<close> in which the clause itself is changed: its head symbol \<open>r\<close> now reads
  \<^verbatim>\<open>lambda\<close>, and a clause that was only \<^verbatim>\<open>(catch)\<close> has got a new empty list as second
  element. In \<open>\<tau>\<close>, and in every later store \<open>\<sigma>'\<close> where the head still reads \<^verbatim>\<open>lambda\<close>, the
  same form has no catch clause: all its arguments, the former clause among them, are body
  forms, and \<^verbatim>\<open>try\<close> ends as their evaluation ends, so an error is thrown on.
\<close>

theorem C10_try_rewrites_its_clause:
  "(eval_body ev Null (try_forms \<sigma> args) \<sigma> = (Throw e, \<rho>) \<and> has_catch_clause \<sigma> args \<and>
    last args = Arr c \<and> arrs \<rho> c = Sym r # rest \<and> c \<noteq> next_arr \<rho> \<and>
    \<tau> = clause_rewritten \<rho> c r \<longrightarrow>
      syms \<tau> r = ''lambda'' \<and>
      arrs \<tau> c = (if rest = [] then [Sym r, Arr (next_arr \<rho>)] else Sym r # rest) \<and>
      \<not> has_catch_clause \<tau> args \<and>
      try_macro h ev args \<sigma> =
        (case ev (Arr c) \<tau> of
           (Ok callback, \<sigma>3) \<Rightarrow>
             (case call_fn h ev callback (plain_this h) [e] \<sigma>3 of
                (Ok v, \<sigma>4) \<Rightarrow> (Ok (last (Null # completed ev (try_forms \<sigma> args) \<sigma>)), \<sigma>4)
              | (q, \<sigma>4) \<Rightarrow> (q, \<sigma>4))
         | (q, \<sigma>3) \<Rightarrow> (q, \<sigma>3))) \<and>
   (last args = Arr c \<and> arrs \<sigma>' c = Sym r # rest' \<and> syms \<sigma>' r = ''lambda'' \<longrightarrow>
      try_forms \<sigma>' args = args \<and>
      try_macro h ev args \<sigma>' = eval_body ev Null args \<sigma>')"
proof (intro conjI impI)
  assume a: "eval_body ev Null (try_forms \<sigma> args) \<sigma> = (Throw e, \<rho>) \<and> has_catch_clause \<sigma> args \<and>
    last args = Arr c \<and> arrs \<rho> c = Sym r # rest \<and> c \<noteq> next_arr \<rho> \<and>
    \<tau> = clause_rewritten \<rho> c r"
  then show s: "syms \<tau> r = ''lambda''"
    by (simp add: clause_rewritten_def push_arglist_def)
  from a show t: "arrs \<tau> c = (if rest = [] then [Sym r, Arr (next_arr \<rho>)] else Sym r # rest)"
    by (simp add: clause_rewritten_def push_arglist_def)
  from t obtain rest2 where "arrs \<tau> c = Sym r # rest2" by (cases "rest = []") simp_all
  with a s show "\<not> has_catch_clause \<tau> args"
    using renamed_is_no_clause by blast
  from a show "try_macro h ev args \<sigma> =
        (case ev (Arr c) \<tau> of
           (Ok callback, \<sigma>3) \<Rightarrow>
             (case call_fn h ev callback (plain_this h) [e] \<sigma>3 of
                (Ok v, \<sigma>4) \<Rightarrow> (Ok (last (Null # completed ev (try_forms \<sigma> args) \<sigma>)), \<sigma>4)
              | (q, \<sigma>4) \<Rightarrow> (q, \<sigma>4))
         | (q, \<sigma>3) \<Rightarrow> (q, \<sigma>3))"
    using try_macro_caught [of \<sigma> args c ev e \<rho> r rest h] by (simp del: last.simps)
next
  assume b: "last args = Arr c \<and> arrs \<sigma>' c = Sym r # rest' \<and> syms \<sigma>' r = ''lambda''"
  then have n: "\<not> has_catch_clause \<sigma>' args" using renamed_is_no_clause by blast
  then show "try_forms \<sigma>' args = args" by (simp add: try_forms_def)
  from n show "try_macro h ev args \<sigma>' = eval_body ev Null args \<sigma>'"
    by (rule try_macro_no_clause)
qed

text \<open>
  The store after \<^verbatim>\<open>(try 1 (if) (catch (e) 99))\<close> has caught its error once, from
  \<open>try_state\<close>.
\<close>

definition after_catch_state :: state where
  "after_catch_state =
     snd (try_macro example_host (resolve example_host 3) [Num 1, Arr 0, Arr 1] try_state)"

theorem C10_witness:
  "fst (try_macro example_host (resolve example_host 3) [Num 1, Arr 0, Arr 1] try_state) = Ok (Num 1) \<and>
   syms try_state 1 = ''catch'' \<and>
   syms (clause_rewritten caught_state 1 1) 1 = ''lambda'' \<and>
   syms after_catch_state 1 = ''lambda'' \<and>
   try_forms after_catch_state [Num 1, Arr 0, Arr 1] = [Num 1, Arr 0, Arr 1] \<and>
   try_macro example_host (resolve example_host 3) [Num 1, Arr 0, Arr 1] after_catch_state
     = eval_body (resolve example_host 3) Null [Num 1, Arr 0, Arr 1] after_catch_state \<and>
   fst (try_macro example_host (resolve example_host 3) [Num 1, Arr 0, Arr 1] after_catch_state)
     = Throw (Err ''(if) requires at least 2 arguments (got 0)'')"
proof -
  let ?e = "Err ''(if) requires at least 2 arguments (got 0)''"
  let ?ev = "resolve example_host 3"
  let ?args = "[Num 1, Arr 0, Arr 1]"
  have "fst (eval_body ?ev Null [Num 1, Arr 0] try_state) = Throw ?e"
    by code_simp
  then have body: "eval_body ?ev Null [Num 1, Arr 0] try_state = (Throw ?e, caught_state)"
    unfolding caught_state_def by (metis prod.collapse)
  have f3: "try_forms try_state ?args = [Num 1, Arr 0]"
    by (simp add: try_forms_def has_catch_clause_def is_catch_def try_state_def)
  have c3: "has_catch_clause try_state ?args"
    by (simp add: has_catch_clause_def is_catch_def try_state_def)
  have a1: "arrs caught_state 1 = Sym 1 # [Arr 2, Num 99]"
    unfolding caught_state_def by code_simp
  have a2: "1 \<noteq> next_arr caught_state"
    unfolding caught_state_def by code_simp
  have hyp1: "eval_body ?ev Null (try_forms try_state ?args) try_state = (Throw ?e, caught_state) \<and>
      has_catch_clause try_state ?args \<and> last ?args = Arr 1 \<and>
      arrs caught_state 1 = Sym 1 # [Arr 2, Num 99] \<and> 1 \<noteq> next_arr caught_state \<and>
      clause_rewritten caught_state 1 1 = clause_rewritten caught_state 1 1"
    using body f3 c3 a1 a2 by simp
  have b1: "arrs after_catch_state 1 = Sym 1 # [Arr 2, Num 99]"
    unfolding after_catch_state_def by code_simp
  have b2: "syms after_catch_state 1 = ''lambda''"
    unfolding after_catch_state_def by code_simp
  have hyp2: "last ?args = Arr 1 \<and> arrs after_catch_state 1 = Sym 1 # [Arr 2, Num 99] \<and>
      syms after_catch_state 1 = ''lambda''"
    using b1 b2 by simp
  have w0: "fst (try_macro example_host ?ev ?args try_state) = Ok (Num 1)"
    by code_simp
  have w1: "syms try_state 1 = ''catch''"
    by (simp add: try_state_def)
  have w2: "fst (try_macro example_host ?ev ?args after_catch_state) = Throw ?e"
    unfolding after_catch_state_def by code_simp
  note p1 = C10_try_rewrites_its_clause [where ev = "?ev" and \<sigma> = try_state and args = "?args"
      and e = "?e" and \<rho> = caught_state and c = 1 and r = 1 and rest = "[Arr 2, Num 99]"
      and \<tau> = "clause_rewritten caught_state 1 1", THEN conjunct1, THEN mp, OF hyp1]
  note p2 = C10_try_rewrites_its_clause [where ev = "?ev" and h = example_host and args = "?args"
      and c = 1 and r = 1 and rest' = "[Arr 2, Num 99]" and \<sigma>' = after_catch_state,
      THEN conjunct2, THEN mp, OF hyp2]
  from p1 p2 w0 w1 w2 b2 show ?thesis by blast
qed

section \<open>Leaving a frame\<close>

text \<open>
  An example at the top level: array 0 is the empty list \<^verbatim>\<open>()\<close>, array 1 the form \<^verbatim>\<open>(if)\<close>,
  which throws, array 2 the form \<^verbatim>\<open>(let () (if))\<close> and array 3 the clause \<^verbatim>\<open>(catch)\<close>.
\<close>

definition let_state :: state where
  "let_state =
     example_state\<lparr>
       arrs := (\<lambda>a. [])(0 := [], 1 := [Sym 0], 2 := [Sym 1, Arr 0, Arr 1], 3 := [Sym 2]),
       next_arr := 4,
       syms := (\<lambda>r. [])(0 := ''if'', 1 := ''let'', 2 := ''catch''), next_sym := 3\<rparr>"

text \<open>
  Claim C3 against the code. \<^verbatim>\<open>let\<close>, a \<^verbatim>\<open>lambda\<close> function and a \<^verbatim>\<open>defun\<close> function put the
  outer environment back only after their body has returned; no handler does it when the
  body throws. Here the body is \<^verbatim>\<open>(if)\<close>: each of the three ends in the error with
  \<^verbatim>\<open>lisp.env\<close> still the inner frame (table 2), whereas with the body \<^verbatim>\<open>1\<close> the environment
  is the outer one again. Around \<^verbatim>\<open>(let () (if))\<close>, a \<^verbatim>\<open>try\<close> with a catch clause returns
  normally and the program goes on in the frame of the \<^verbatim>\<open>let\<close>.
\<close>

theorem C3_error_leaves_inner_environment:
  "lisp_env let_state = Env (Env ENull 0) 1 \<and>
   fst (let_macro example_host (resolve example_host 3) 3 [Arr 0, Arr 1] let_state)
     = Throw (Err ''(if) requires at least 2 arguments (got 0)'') \<and>
   lisp_env (snd (let_macro example_host (resolve example_host 3) 3 [Arr 0, Arr 1] let_state))
     = Env (Env (Env ENull 0) 1) 2 \<and>
   fst (let_macro example_host (resolve example_host 3) 3 [Arr 0, Num 1] let_state) = Ok (Num 1) \<and>
   lisp_env (snd (let_macro example_host (resolve example_host 3) 3 [Arr 0, Num 1] let_state))
     = Env (Env ENull 0) 1 \<and>
   fst (lambda_macro example_host [Arr 0, Arr 1] let_state)
     = Ok (Fun (Lambda (Env (Env (Env ENull 0) 1) 2) (Arr 0) [Arr 1])) \<and>
   lisp_env (snd (lambda_macro example_host [Arr 0, Arr 1] let_state)) = Env (Env ENull 0) 1 \<and>
   fst (call_fn example_host (resolve example_host 3)
          (Fun (Lambda (Env (Env (Env ENull 0) 1) 2) (Arr 0) [Arr 1])) Undefined []
          (snd (lambda_macro example_host [Arr 0, Arr 1] let_state)))
     = Throw (Err ''(if) requires at least 2 arguments (got 0)'') \<and>
   lisp_env (snd (call_fn example_host (resolve example_host 3)
          (Fun (Lambda (Env (Env (Env ENull 0) 1) 2) (Arr 0) [Arr 1])) Undefined []
          (snd (lambda_macro example_host [Arr 0, Arr 1] let_state))))
     = Env (Env (Env ENull 0) 1) 2 \<and>
   fst (call_defun example_host (resolve example_host 3) (Arr 0) [Arr 1] [] let_state)
     = Throw (Err ''(if) requires at least 2 arguments (got 0)'') \<and>
   lisp_env (snd (call_defun example_host (resolve example_host 3) (Arr 0) [Arr 1] [] let_state))
     = Env (Env (Env ENull 0) 1) 2 \<and>
   fst (try_macro example_host (resolve example_host 4) [Arr 2, Arr 3] let_state) = Ok Null \<and>
   lisp_env (snd (try_macro example_host (resolve example_host 4) [Arr 2, Arr 3] let_state))
     = Env (Env (Env ENull 0) 1) 2"
  by code_simp

section \<open>Lookup and existence\<close>

text \<open>
  A symbol table is ordinary when the method \<^verbatim>\<open>hasOwnProperty\<close> it is asked with is the
  host's: no binding of that name lies in it and it inherits the function from
  \<^verbatim>\<open>Object.prototype\<close>. A table answers \<^verbatim>\<open>get\<close> for a name when the test
  \<^verbatim>\<open>this.symbols.hasOwnProperty(symbol) || this.symbols[symbol]\<close> holds of it.
\<close>

definition ordinary :: "state \<Rightarrow> nat \<Rightarrow> bool" where
  "ordinary \<sigma> t =
     (prop_read (objs \<sigma> t) ''hasOwnProperty'' = HostFn ''Object.prototype.hasOwnProperty'')"

definition answers :: "state \<Rightarrow> string \<Rightarrow> nat \<Rightarrow> bool" where
  "answers \<sigma> name t = (own (objs \<sigma> t) name \<noteq> None \<or> truthy (prop_read (objs \<sigma> t) name))"

lemma split_dot_nodot: "CHR ''.'' \<notin> set s \<Longrightarrow> split_dot s = [s]"
  by (induction s) auto

lemma Env_get_nodot: "CHR ''.'' \<notin> set s \<Longrightarrow> Env_get \<sigma> e s = Env_lookup \<sigma> e s"
  by (cases "Env_lookup \<sigma> e s") (simp_all add: Env_get_def split_dot_nodot)

lemma chain_is_Env: "\<exists>q u. chain ts (Env p s) = Env q u"
  by (cases ts) auto

lemma chain_append: "chain (xs @ ys) e = chain xs (chain ys e)"
  by (induction xs) auto

lemma chain_snoc: "chain (pre @ [l]) e = chain pre (Env e l)"
  by (simp add: chain_append)

lemma ordinary_test:
  "ordinary \<sigma> t \<Longrightarrow> hasOwnProperty \<sigma> t k = Ok (Bool (own (objs \<sigma> t) k \<noteq> None))"
  by (simp add: ordinary_def hasOwnProperty_def)

lemma has_chain:
  "\<forall>t\<in>set ts. ordinary \<sigma> t \<Longrightarrow>
   Env_has \<sigma> (chain ts (Env p s)) n =
     (if \<exists>t\<in>set ts. own (objs \<sigma> t) n \<noteq> None then Ok (Bool True) else Env_has \<sigma> (Env p s) n)"
proof (induction ts)
  case Nil
  then show ?case by simp
next
  case (Cons t ts)
  obtain q u where c: "chain ts (Env p s) = Env q u" using chain_is_Env by blast
  have o: "hasOwnProperty \<sigma> t n = Ok (Bool (own (objs \<sigma> t) n \<noteq> None))"
    using Cons.prems by (simp add: ordinary_test)
  have ih: "Env_has \<sigma> (Env q u) n =
     (if \<exists>t\<in>set ts. own (objs \<sigma> t) n \<noteq> None then Ok (Bool True) else Env_has \<sigma> (Env p s) n)"
    using Cons unfolding c by simp
  have "Env_has \<sigma> (Env (Env q u) t) n =
          (if own (objs \<sigma> t) n \<noteq> None then Ok (Bool True) else Env_has \<sigma> (Env q u) n)"
    using o by simp
  then show ?case unfolding chain.simps c ih by auto
qed

lemma lookup_chain:
  "\<forall>t\<in>set ts. ordinary \<sigma> t \<Longrightarrow>
   Env_lookup \<sigma> (chain ts (Env p s)) n =
     (case find (answers \<sigma> n) ts of
        Some t \<Rightarrow> Ok (prop_read (objs \<sigma> t) n)
      | None \<Rightarrow> Env_lookup \<sigma> (Env p s) n)"
proof (induction ts)
  case Nil
  then show ?case by simp
next
  case (Cons t ts)
  obtain q u where c: "chain ts (Env p s) = Env q u" using chain_is_Env by blast
  have o: "hasOwnProperty \<sigma> t n = Ok (Bool (own (objs \<sigma> t) n \<noteq> None))"
    using Cons.prems by (simp add: ordinary_test)
  have ih: "Env_lookup \<sigma> (Env q u) n =
     (case find (answers \<sigma> n) ts of
        Some t \<Rightarrow> Ok (prop_read (objs \<sigma> t) n)
      | None \<Rightarrow> Env_lookup \<sigma> (Env p s) n)"
    using Cons unfolding c by simp
  have "Env_lookup \<sigma> (Env (Env q u) t) n =
          (if answers \<sigma> n t then Ok (prop_read (objs \<sigma> t) n) else Env_lookup \<sigma> (Env q u) n)"
    using o by (simp add: answers_def)
  then show ?case unfolding chain.simps c ih by simp
qed

lemma has_last:
  assumes "ordinary \<sigma> s"
  shows "Env_has \<sigma> (Env ENull s) n = Ok (Bool (own (objs \<sigma> s) n \<noteq> None))"
    and "Env_has \<sigma> (Env (EHost g) s) n =
           Ok (Bool (own (objs \<sigma> s) n \<noteq> None \<or> loosely_defined (prop_read (objs \<sigma> g) n)))"
  using assms by (simp_all add: ordinary_test)

lemma lookup_last:
  assumes "ordinary \<sigma> s"
  shows "Env_lookup \<sigma> (Env ENull s) n =
           Ok (if answers \<sigma> n s then prop_read (objs \<sigma> s) n else Undefined)"
    and "Env_lookup \<sigma> (Env (EHost g) s) n =
           Ok (if answers \<sigma> n s then prop_read (objs \<sigma> s) n else prop_read (objs \<sigma> g) n)"
  using assms by (simp_all add: ordinary_test answers_def)

lemma has_frames:
  assumes "ts \<noteq> []" and "\<forall>t\<in>set ts. ordinary \<sigma> t"
  shows "Env_has \<sigma> (chain ts ENull) n = Ok (Bool (\<exists>t\<in>set ts. own (objs \<sigma> t) n \<noteq> None))"
    and "Env_has \<sigma> (chain ts (EHost g)) n =
           Ok (Bool ((\<exists>t\<in>set ts. own (objs \<sigma> t) n \<noteq> None) \<or>
                     loosely_defined (prop_read (objs \<sigma> g) n)))"
proof -
  obtain pre l where ts: "ts = pre @ [l]" using assms(1) by (cases ts rule: rev_cases) auto
  have b: "\<forall>t\<in>set pre. ordinary \<sigma> t" and l: "ordinary \<sigma> l" using assms(2) ts by auto
  show "Env_has \<sigma> (chain ts ENull) n = Ok (Bool (\<exists>t\<in>set ts. own (objs \<sigma> t) n \<noteq> None))"
    unfolding ts chain_snoc has_chain [OF b] has_last(1) [OF l] by auto
  show "Env_has \<sigma> (chain ts (EHost g)) n =
           Ok (Bool ((\<exists>t\<in>set ts. own (objs \<sigma> t) n \<noteq> None) \<or>
                     loosely_defined (prop_read (objs \<sigma> g) n)))"
    unfolding ts chain_snoc has_chain [OF b] has_last(2) [OF l] by auto
qed

lemma find_snoc:
  "find P (xs @ [x]) = (case find P xs of Some y \<Rightarrow> Some y | None \<Rightarrow> if P x then Some x else None)"
  by (induction xs) auto

lemma lookup_frames:
  assumes "ts \<noteq> []" and "\<forall>t\<in>set ts. ordinary \<sigma> t"
  shows "Env_lookup \<sigma> (chain ts ENull) n =
           Ok (case find (answers \<sigma> n) ts of
                 Some t \<Rightarrow> prop_read (objs \<sigma> t) n | None \<Rightarrow> Undefined)"
    and "Env_lookup \<sigma> (chain ts (EHost g)) n =
           Ok (case find (answers \<sigma> n) ts of
                 Some t \<Rightarrow> prop_read (objs \<sigma> t) n | None \<Rightarrow> prop_read (objs \<sigma> g) n)"
proof -
  obtain pre l where ts: "ts = pre @ [l]" using assms(1) by (cases ts rule: rev_cases) auto
  have b: "\<forall>t\<in>set pre. ordinary \<sigma> t" and l: "ordinary \<sigma> l" using assms(2) ts by auto
  show "Env_lookup \<sigma> (chain ts ENull) n =
           Ok (case find (answers \<sigma> n) ts of
                 Some t \<Rightarrow> prop_read (objs \<sigma> t) n | None \<Rightarrow> Undefined)"
    unfolding ts chain_snoc lookup_chain [OF b] lookup_last(1) [OF l] find_snoc
    by (simp split: option.split)
  show "Env_lookup \<sigma> (chain ts (EHost g)) n =
           Ok (case find (answers \<sigma> n) ts of
                 Some t \<Rightarrow> prop_read (objs \<sigma> t) n | None \<Rightarrow> prop_read (objs \<sigma> g) n)"
    unfolding ts chain_snoc lookup_chain [OF b] lookup_last(2) [OF l] find_snoc
    by (simp split: option.split)
qed

lemma no_function_throws:
  assumes "\<not> is_callable (prop_read (objs \<sigma> s) ''hasOwnProperty'')"
  shows "hasOwnProperty \<sigma> s n = Throw type_error"
  using assms by (cases "prop_read (objs \<sigma> s) ''hasOwnProperty''") (simp_all add: hasOwnProperty_def)

text \<open>
  Claim C5, as the code has it, for a name without a dot and a chain of frames \<open>ts\<close>,
  innermost first, whose tables are all ordinary. \<^verbatim>\<open>has\<close> reports true exactly when some
  frame owns the name as a key, whatever the value (false, null, undefined, ...), or, when
  no frame does and the chain ends in a host object that is no \<^verbatim>\<open>Env\<close>, when that object
  holds under the name a value that is neither undefined nor null: in the host namespace the
  value decides, not the key. \<^verbatim>\<open>get\<close> returns what the nearest frame that answers reads
  under the name, and a frame answers when it owns the name or reads a truthy value there:
  so the stored value of the nearest owner is returned, falsy or not, unless a nearer frame
  inherits a truthy property of that name (such as \<^verbatim>\<open>toString\<close>), which then is the result.
  When no frame answers, \<^verbatim>\<open>get\<close> returns what the host object holds, or \<^verbatim>\<open>undefined\<close> when
  the chain ends in \<^verbatim>\<open>null\<close>. A frame whose table holds under \<^verbatim>\<open>hasOwnProperty\<close> a value that
  is no function makes \<^verbatim>\<open>has\<close> and \<^verbatim>\<open>get\<close> throw.
\<close>

theorem C5_ownership_in_frames_value_in_host:
  assumes "CHR ''.'' \<notin> set name" and "ts \<noteq> []" and "\<forall>t\<in>set ts. ordinary \<sigma> t"
  shows "Env_has \<sigma> (chain ts ENull) name =
           Ok (Bool (\<exists>t\<in>set ts. own (objs \<sigma> t) name \<noteq> None)) \<and>
         Env_has \<sigma> (chain ts (EHost g)) name =
           Ok (Bool ((\<exists>t\<in>set ts. own (objs \<sigma> t) name \<noteq> None) \<or>
                     loosely_defined (prop_read (objs \<sigma> g) name))) \<and>
         Env_get \<sigma> (chain ts ENull) name =
           Ok (case find (answers \<sigma> name) ts of
                 Some t \<Rightarrow> prop_read (objs \<sigma> t) name | None \<Rightarrow> Undefined) \<and>
         Env_get \<sigma> (chain ts (EHost g)) name =
           Ok (case find (answers \<sigma> name) ts of
                 Some t \<Rightarrow> prop_read (objs \<sigma> t) name | None \<Rightarrow> prop_read (objs \<sigma> g) name) \<and>
         (\<not> is_callable (prop_read (objs \<sigma> s) ''hasOwnProperty'') \<longrightarrow>
            Env_has \<sigma> (Env p s) name = Throw type_error \<and>
            Env_get \<sigma> (Env p s) name = Throw type_error)"
proof (intro conjI impI)
  show "Env_has \<sigma> (chain ts ENull) name =
           Ok (Bool (\<exists>t\<in>set ts. own (objs \<sigma> t) name \<noteq> None))"
    using assms(2,3) by (rule has_frames)
  show "Env_has \<sigma> (chain ts (EHost g)) name =
           Ok (Bool ((\<exists>t\<in>set ts. own (objs \<sigma> t) name \<noteq> None) \<or>
                     loosely_defined (prop_read (objs \<sigma> g) name)))"
    using assms(2,3) by (rule has_frames)
  show "Env_get \<sigma> (chain ts ENull) name =
           Ok (case find (answers \<sigma> name) ts of
                 Some t \<Rightarrow> prop_read (objs \<sigma> t) name | None \<Rightarrow> Undefined)"
    unfolding Env_get_nodot [OF assms(1)] using assms(2,3) by (rule lookup_frames)
  show "Env_get \<sigma> (chain ts (EHost g)) name =
           Ok (case find (answers \<sigma> name) ts of
                 Some t \<Rightarrow> prop_read (objs \<sigma> t) name | None \<Rightarrow> prop_read (objs \<sigma> g) name)"
    unfolding Env_get_nodot [OF assms(1)] using assms(2,3) by (rule lookup_frames)
next
  assume n: "\<not> is_callable (prop_read (objs \<sigma> s) ''hasOwnProperty'')"
  from no_function_throws [OF n] show "Env_has \<sigma> (Env p s) name = Throw type_error"
    by simp
  from no_function_throws [OF n] show "Env_get \<sigma> (Env p s) name = Throw type_error"
    unfolding Env_get_nodot [OF assms(1)] by simp
qed


text \<open>
  An example in which a program has bound the name \<^verbatim>\<open>hasOwnProperty\<close>: the innermost table
  of \<open>shadow_state\<close> holds the number 1 under it.
\<close>

definition rebound_state :: state where
  "rebound_state = obj_write shadow_state 2 ''hasOwnProperty'' (Num 1)"

theorem C5_witness:
  "Env_has shadow_state (Env (Env (EHost 0) 1) 2) ''x'' = Ok (Bool True) \<and>
   Env_get shadow_state (Env (Env (EHost 0) 1) 2) ''x'' = Ok (Bool False) \<and>
   Env_has shadow_state (Env (Env (EHost 0) 1) 2) ''u'' = Ok (Bool True) \<and>
   Env_get shadow_state (Env (Env (EHost 0) 1) 2) ''u'' = Ok Undefined \<and>
   Env_has shadow_state (Env (Env (EHost 0) 1) 2) ''gone'' = Ok (Bool False) \<and>
   Env_get shadow_state (Env (Env (EHost 0) 1) 2) ''gone'' = Ok Null \<and>
   Env_get shadow_state (Env (Env (EHost 0) 1) 2) ''toString''
     = Ok (HostFn ''Object.prototype.toString'') \<and>
   Env_has shadow_state (Env (Env ENull 1) 2) ''gone'' = Ok (Bool False) \<and>
   Env_get shadow_state (Env (Env ENull 1) 2) ''gone'' = Ok Undefined \<and>
   Env_has rebound_state (Env (Env (EHost 0) 1) 2) ''x'' = Throw type_error \<and>
   Env_get rebound_state (Env (Env (EHost 0) 1) 2) ''x'' = Throw type_error"
proof -
  have o: "\<forall>t\<in>set [2, 1]. ordinary shadow_state t"
    by (simp add: ordinary_def shadow_state_def plain_def example_host_def prop_read_def)
  have o1: "\<forall>t\<in>set [1]. ordinary rebound_state t"
    by (simp add: ordinary_def rebound_state_def obj_write_def shadow_state_def plain_def
        example_host_def prop_read_def)
  have ne: "[2, 1] \<noteq> ([]::nat list)" "[1] \<noteq> ([]::nat list)" by simp_all
  have d: "CHR ''.'' \<notin> set ''x''" "CHR ''.'' \<notin> set ''u''" "CHR ''.'' \<notin> set ''gone''"
    "CHR ''.'' \<notin> set ''toString''"
    by simp_all
  note defs = shadow_state_def plain_def answers_def prop_read_def example_host_def
  note X = C5_ownership_in_frames_value_in_host [where name = "''x''" and ts = "[2, 1]"
      and \<sigma> = shadow_state and g = 0, OF d(1) ne(1) o]
  note U = C5_ownership_in_frames_value_in_host [where name = "''u''" and ts = "[2, 1]"
      and \<sigma> = shadow_state and g = 0, OF d(2) ne(1) o]
  note G = C5_ownership_in_frames_value_in_host [where name = "''gone''" and ts = "[2, 1]"
      and \<sigma> = shadow_state and g = 0, OF d(3) ne(1) o]
  note S = C5_ownership_in_frames_value_in_host [where name = "''toString''" and ts = "[2, 1]"
      and \<sigma> = shadow_state and g = 0, OF d(4) ne(1) o]
  note R = C5_ownership_in_frames_value_in_host [where name = "''x''" and ts = "[1]"
      and \<sigma> = rebound_state and s = 2 and p = "Env (EHost 0) 1", OF d(1) ne(2) o1]
  have x1: "Env_has shadow_state (Env (Env (EHost 0) 1) 2) ''x'' = Ok (Bool True)"
    using X [THEN conjunct2, THEN conjunct1] by (simp add: defs)
  have x2: "Env_get shadow_state (Env (Env (EHost 0) 1) 2) ''x'' = Ok (Bool False)"
    using X [THEN conjunct2, THEN conjunct2, THEN conjunct2, THEN conjunct1] by (simp add: defs)
  have u1: "Env_has shadow_state (Env (Env (EHost 0) 1) 2) ''u'' = Ok (Bool True)"
    using U [THEN conjunct2, THEN conjunct1] by (simp add: defs)
  have u2: "Env_get shadow_state (Env (Env (EHost 0) 1) 2) ''u'' = Ok Undefined"
    using U [THEN conjunct2, THEN conjunct2, THEN conjunct2, THEN conjunct1] by (simp add: defs)
  have g1: "Env_has shadow_state (Env (Env (EHost 0) 1) 2) ''gone'' = Ok (Bool False)"
    using G [THEN conjunct2, THEN conjunct1] by (simp add: defs)
  have g2: "Env_get shadow_state (Env (Env (EHost 0) 1) 2) ''gone'' = Ok Null"
    using G [THEN conjunct2, THEN conjunct2, THEN conjunct2, THEN conjunct1] by (simp add: defs)
  have s2: "Env_get shadow_state (Env (Env (EHost 0) 1) 2) ''toString''
              = Ok (HostFn ''Object.prototype.toString'')"
    using S [THEN conjunct2, THEN conjunct2, THEN conjunct2, THEN conjunct1] by (simp add: defs)
  have n1: "Env_has shadow_state (Env (Env ENull 1) 2) ''gone'' = Ok (Bool False)"
    using G [THEN conjunct1] by (simp add: defs)
  have n2: "Env_get shadow_state (Env (Env ENull 1) 2) ''gone'' = Ok Undefined"
    using G [THEN conjunct2, THEN conjunct2, THEN conjunct1] by (simp add: defs)
  have "\<not> is_callable (prop_read (objs rebound_state 2) ''hasOwnProperty'')"
    by (simp add: rebound_state_def obj_write_def prop_read_def)
  with R [THEN conjunct2, THEN conjunct2, THEN conjunct2, THEN conjunct2]
  have r: "Env_has rebound_state (Env (Env (EHost 0) 1) 2) ''x'' = Throw type_error \<and>
           Env_get rebound_state (Env (Env (EHost 0) 1) 2) ''x'' = Throw type_error"
    by blast
  from x1 x2 u1 u2 g1 g2 s2 n1 n2 r show ?thesis by (intro conjI) blast+
qed

text \<open>
  Claim C5 as stated fails in two ways. In the host namespace the value decides: the host
  object of \<open>shadow_state\<close> holds a binding for \<^verbatim>\<open>gone\<close> whose value is null, and \<^verbatim>\<open>has\<close>
  reports absence. And \<^verbatim>\<open>get\<close> does not go by ownership alone: frame 1 owns \<^verbatim>\<open>toString\<close>
  with the value 1, the innermost frame 2 owns nothing, and yet \<^verbatim>\<open>get\<close> returns the function
  that table 2 inherits, because it is truthy.
\<close>

theorem C5_counterexample:
  "lisp_env shadow_state = Env (Env (EHost 0) 1) 2 \<and>
   own (objs shadow_state 0) ''gone'' = Some Null \<and>
   Env_has shadow_state (lisp_env shadow_state) ''gone'' = Ok (Bool False) \<and>
   own (objs shadow_state 2) ''toString'' = None \<and>
   own (objs shadow_state 1) ''toString'' = Some (Num 1) \<and>
   Env_get shadow_state (lisp_env shadow_state) ''toString''
     = Ok (HostFn ''Object.prototype.toString'')"
  by code_simp


section \<open>Assignment\<close>

text \<open>
  Where the walk of \<^verbatim>\<open>set\<close> for an unbound name stops, in a chain of frames with the tables
  \<open>ts\<close>, innermost first: at the first frame whose parent holds the global object \<open>gl\<close> as
  its table, and at the outermost frame when there is no such parent.
\<close>

fun landing :: "nat \<Rightarrow> nat list \<Rightarrow> nat" where
  "landing gl [] = gl"
| "landing gl [t] = t"
| "landing gl (t # u # ts) = (if u = gl then t else landing gl (u # ts))"

lemma cur_set_Env:
  "lisp_env \<sigma> = Env p s \<Longrightarrow> cur_set h \<sigma> x v = Env_set h \<sigma> (Env p s) (js_String h \<sigma> x) v"
  by (simp add: cur_set_def)

lemma cur_set_chain:
  assumes "lisp_env \<sigma> = chain ts e" and "ts \<noteq> []"
  shows "cur_set h \<sigma> x v = Env_set h \<sigma> (chain ts e) (js_String h \<sigma> x) v"
proof -
  from assms(2) obtain t ts' where "ts = t # ts'" by (cases ts) auto
  then show ?thesis using assms(1) by (simp add: cur_set_def)
qed

lemma js_assign_cases:
  "js_assign \<sigma> r k v = (Ok Undefined, obj_write \<sigma> r k v) \<or> js_assign \<sigma> r k v = (Ok Undefined, \<sigma>) \<or>
   js_assign \<sigma> r k v = (Unmodelled, \<sigma>)"
  by (simp add: js_assign_def)

lemma js_assign_plain:
  "k \<notin> guarded (objs \<sigma> r) \<Longrightarrow> js_assign \<sigma> r k v = (Ok Undefined, obj_write \<sigma> r k v)"
  by (simp add: js_assign_def)

lemma handler_not_entered:
  "(case js_assign \<sigma> r k v of (Throw e, \<sigma>') \<Rightarrow> f \<sigma>' | q \<Rightarrow> q) = js_assign \<sigma> r k v"
  using js_assign_cases [of \<sigma> r k v] by auto

lemma Env_set_owner:
  assumes "CHR ''.'' \<notin> set n"
    and "\<forall>u\<in>set pre. ordinary \<sigma> u \<and> own (objs \<sigma> u) n = None"
    and "ordinary \<sigma> t" and "own (objs \<sigma> t) n \<noteq> None"
  shows "Env_set h \<sigma> (chain pre (Env p t)) n v = js_assign \<sigma> t n v"
  using assms(2)
proof (induction pre)
  case Nil
  show ?case using assms(1,3,4) by (simp add: split_dot_nodot ordinary_test)
next
  case (Cons u pre)
  obtain q w where c: "chain pre (Env p t) = Env q w" using chain_is_Env by blast
  have o: "\<forall>x\<in>set (u # pre). ordinary \<sigma> x" using Cons.prems by simp
  have "Env_has \<sigma> (chain (u # pre) (Env p t)) n = Ok (Bool True)"
    unfolding has_chain [OF o] using assms(3,4) by (simp add: ordinary_test)
  then have hs: "Env_has \<sigma> (Env (Env q w) u) n = Ok (Bool True)" by (simp add: c)
  have hu: "hasOwnProperty \<sigma> u n = Ok (Bool False)"
    using Cons.prems by (simp add: ordinary_test)
  have ih: "Env_set h \<sigma> (Env q w) n v = js_assign \<sigma> t n v"
    using Cons unfolding c by simp
  have "Env_set h \<sigma> (Env (Env q w) u) n v =
          (case Env_set h \<sigma> (Env q w) n v of (Throw e, \<sigma>') \<Rightarrow> js_assign \<sigma>' u n v | r \<Rightarrow> r)"
    using assms(1) hs hu by (simp add: split_dot_nodot)
  then show ?case unfolding ih handler_not_entered by (simp add: c)
qed

lemma Env_set_host:
  assumes "CHR ''.'' \<notin> set n" and "ts \<noteq> []"
    and "\<forall>u\<in>set ts. ordinary \<sigma> u \<and> own (objs \<sigma> u) n = None"
    and "loosely_defined (prop_read (objs \<sigma> g) n)"
  shows "Env_set h \<sigma> (chain ts (EHost g)) n v = js_assign \<sigma> g n v"
  using assms(2,3)
proof (induction ts)
  case Nil
  then show ?case by simp
next
  case (Cons u ts)
  have hu: "hasOwnProperty \<sigma> u n = Ok (Bool False)"
    using Cons.prems by (simp add: ordinary_test)
  show ?case
  proof (cases ts)
    case Nil
    show ?thesis using assms(1,4) hu unfolding Nil by (simp add: split_dot_nodot)
  next
    case (Cons u' ts')
    then have ne: "ts \<noteq> []" by simp
    obtain q w where c: "chain ts (EHost g) = Env q w" unfolding Cons by simp
    have o: "\<forall>x\<in>set (u # ts). ordinary \<sigma> x" using Cons.prems by simp
    have "Env_has \<sigma> (chain (u # ts) (EHost g)) n = Ok (Bool True)"
      using has_frames(2) [of "u # ts" \<sigma> g n] o assms(4) by simp
    then have hs: "Env_has \<sigma> (Env (Env q w) u) n = Ok (Bool True)" by (simp add: c)
    have ih: "Env_set h \<sigma> (Env q w) n v = js_assign \<sigma> g n v"
      using Cons.IH [OF ne] Cons.prems unfolding c by simp
    have "Env_set h \<sigma> (Env (Env q w) u) n v =
          (case Env_set h \<sigma> (Env q w) n v of (Throw e, \<sigma>') \<Rightarrow> js_assign \<sigma>' u n v | r \<Rightarrow> r)"
      using assms(1) hs hu by (simp add: split_dot_nodot)
    then show ?thesis unfolding ih handler_not_entered by (simp add: c)
  qed
qed

lemma Env_set_unbound:
  assumes "CHR ''.'' \<notin> set n" and "ts \<noteq> []"
    and "Env_has \<sigma> (chain ts e) n = Ok (Bool False)"
  shows "Env_set h \<sigma> (chain ts e) n v = set_walk \<sigma> (chain ts e) n v"
proof -
  from assms(2) obtain t ts' where ts: "ts = t # ts'" by (cases ts) auto
  show ?thesis using assms(1,3) unfolding ts by (simp add: split_dot_nodot)
qed

lemma walk_landing:
  "ts \<noteq> [] \<Longrightarrow> set_walk \<sigma> (chain ts ENull) n v = js_assign \<sigma> (landing (global \<sigma>) ts) n v"
proof (induction "global \<sigma>" ts rule: landing.induct)
  case 1
  then show ?case by simp
next
  case (2 t)
  then show ?case by simp
next
  case (3 t u ts)
  then show ?case by simp
qed

lemma walk_landing_host:
  "global \<sigma> \<in> set (tl ts) \<Longrightarrow>
   set_walk \<sigma> (chain ts (EHost g)) n v = js_assign \<sigma> (landing (global \<sigma>) ts) n v"
proof (induction "global \<sigma>" ts rule: landing.induct)
  case 1
  then show ?case by simp
next
  case (2 t)
  then show ?case by simp
next
  case (3 t u ts)
  then show ?case by (cases "u = global \<sigma>") simp_all
qed

lemma walk_host_throws:
  assumes "prop_read (objs \<sigma> g) ''symbols'' = Undefined"
    and "\<not> truthy (prop_read (objs \<sigma> g) ''parent'')"
  shows "ts \<noteq> [] \<Longrightarrow> global \<sigma> \<notin> set (tl ts) \<Longrightarrow>
   set_walk \<sigma> (chain ts (EHost g)) n v = (Throw type_error, \<sigma>)"
proof (induction "global \<sigma>" ts rule: landing.induct)
  case 1
  then show ?case by simp
next
  case (2 t)
  then show ?case using assms by simp
next
  case (3 t u ts)
  then show ?case by simp
qed

lemma landing_top: "gl \<notin> set (us @ [s]) \<Longrightarrow> landing gl (us @ [s, gl]) = s"
proof (induction us)
  case Nil
  then show ?case by simp
next
  case (Cons u us)
  then show ?case by (cases us) auto
qed

lemma landing_last: "ts \<noteq> [] \<Longrightarrow> gl \<notin> set (tl ts) \<Longrightarrow> landing gl ts = last ts"
proof (induction gl ts rule: landing.induct)
  case (1 gl)
  then show ?case by simp
next
  case (2 gl t)
  then show ?case by simp
next
  case (3 gl t u ts)
  then show ?case by simp
qed

lemma setq_by_set:
  assumes "ev (arg_at args 1) \<sigma> = (Ok v, \<tau>)"
    and "lisp_env \<tau> = chain ts e" and "ts \<noteq> []"
    and "Env_set h \<tau> (chain ts e) (js_String h \<tau> (arg_at args 0)) v = (r, \<tau>')"
  shows "setq_macro h ev args \<sigma> = (case r of Ok u \<Rightarrow> (Ok v, \<tau>') | _ \<Rightarrow> (r, \<tau>'))"
  using assms(1,4) cur_set_chain [OF assms(2,3), of h "arg_at args 0" v]
  by (cases r) (simp_all add: setq_macro_def)


text \<open>
  An example at the top level: the state of \<open>example_state\<close> with the \<^verbatim>\<open>Symbol\<close> objects 0
  and 1, named \<^verbatim>\<open>a\<close> and \<^verbatim>\<open>answer\<close>. In \<open>hosted_state\<close> the same two frames lie over a host
  object that is no \<^verbatim>\<open>Env\<close>.
\<close>

definition named_state :: state where
  "named_state = example_state\<lparr>syms := (\<lambda>r. [])(0 := ''a'', 1 := ''answer''), next_sym := 2\<rparr>"

definition hosted_state :: state where
  "hosted_state = named_state\<lparr>lisp_env := Env (Env (EHost 3) 0) 1\<rparr>"

text \<open>
  Claim C4, as the code has it, for a name without a dot, in a chain of frames \<open>ts\<close>,
  innermost first, whose tables are all ordinary, and for a name the table that is written
  does not guard (in a \<^verbatim>\<open>{}\<close> every name but \<^verbatim>\<open>__proto__\<close>). The first table on the way outward
  that owns the name is rewritten in place, be it a frame's or the global object held by
  the outermost \<^verbatim>\<open>Env\<close>. When no frame owns the name and the chain ends in a host object that
  is no \<^verbatim>\<open>Env\<close> and holds under the name a value that is neither undefined nor null, that
  property of the host object is rewritten. When no binding is found, the new binding is
  made in the frame where the walk of \<^verbatim>\<open>set\<close> stops: the first frame whose parent holds the
  global object as its table, else the outermost frame; so over the \<^verbatim>\<open>Env\<close> that holds the
  global object it is the top-level frame just below it, and the global object is written
  only when its \<^verbatim>\<open>Env\<close> is itself the current environment. In all these cases \<^verbatim>\<open>setq\<close> returns
  the value. When no binding is found, no frame's parent holds the global object and the
  chain ends in a host object without the properties \<^verbatim>\<open>symbols\<close> and \<^verbatim>\<open>parent\<close>, \<^verbatim>\<open>setq\<close>
  throws and binds nothing.
\<close>

theorem C4_setq_assignment:
  assumes "ev (arg_at args 1) \<sigma> = (Ok v, \<tau>)"
    and "name = js_String h \<tau> (arg_at args 0)"
    and "CHR ''.'' \<notin> set name"
    and "ts \<noteq> []" and "\<forall>t\<in>set ts. ordinary \<tau> t"
  shows "(\<forall>pre t post.
            lisp_env \<tau> = chain ts e \<and> ts = pre @ t # post \<and>
            (\<forall>u\<in>set pre. own (objs \<tau> u) name = None) \<and> own (objs \<tau> t) name \<noteq> None \<and>
            name \<notin> guarded (objs \<tau> t) \<longrightarrow>
            setq_macro h ev args \<sigma> = (Ok v, obj_write \<tau> t name v)) \<and>
         (lisp_env \<tau> = chain ts (EHost g) \<and>
            (\<forall>u\<in>set ts. own (objs \<tau> u) name = None) \<and>
            loosely_defined (prop_read (objs \<tau> g) name) \<and> name \<notin> guarded (objs \<tau> g) \<longrightarrow>
            setq_macro h ev args \<sigma> = (Ok v, obj_write \<tau> g name v)) \<and>
         (lisp_env \<tau> = chain ts ENull \<and>
            (\<forall>u\<in>set ts. own (objs \<tau> u) name = None) \<and>
            name \<notin> guarded (objs \<tau> (landing (global \<tau>) ts)) \<longrightarrow>
            setq_macro h ev args \<sigma> = (Ok v, obj_write \<tau> (landing (global \<tau>) ts) name v)) \<and>
         (lisp_env \<tau> = chain ts (EHost g) \<and>
            (\<forall>u\<in>set ts. own (objs \<tau> u) name = None) \<and>
            \<not> loosely_defined (prop_read (objs \<tau> g) name) \<and> global \<tau> \<in> set (tl ts) \<and>
            name \<notin> guarded (objs \<tau> (landing (global \<tau>) ts)) \<longrightarrow>
            setq_macro h ev args \<sigma> = (Ok v, obj_write \<tau> (landing (global \<tau>) ts) name v)) \<and>
         (lisp_env \<tau> = chain ts (EHost g) \<and>
            (\<forall>u\<in>set ts. own (objs \<tau> u) name = None) \<and>
            \<not> loosely_defined (prop_read (objs \<tau> g) name) \<and> global \<tau> \<notin> set (tl ts) \<and>
            prop_read (objs \<tau> g) ''symbols'' = Undefined \<and>
            \<not> truthy (prop_read (objs \<tau> g) ''parent'') \<longrightarrow>
            setq_macro h ev args \<sigma> = (Throw type_error, \<tau>)) \<and>
         (gl \<notin> set (us @ [s]) \<longrightarrow> landing gl (us @ [s, gl]) = s) \<and>
         (global \<tau> \<notin> set (tl ts) \<longrightarrow> landing (global \<tau>) ts = last ts)"
proof (intro conjI allI impI)
  fix pre t post
  assume a: "lisp_env \<tau> = chain ts e \<and> ts = pre @ t # post \<and>
            (\<forall>u\<in>set pre. own (objs \<tau> u) name = None) \<and> own (objs \<tau> t) name \<noteq> None \<and>
            name \<notin> guarded (objs \<tau> t)"
  then have ts: "ts = pre @ t # post" by blast
  have c: "chain ts e = chain pre (Env (chain post e) t)"
    unfolding ts by (simp add: chain_append)
  have p: "\<forall>u\<in>set pre. ordinary \<tau> u \<and> own (objs \<tau> u) name = None"
    using a assms(5) unfolding ts by simp
  have t: "ordinary \<tau> t" using assms(5) unfolding ts by simp
  have "Env_set h \<tau> (chain ts e) name v = js_assign \<tau> t name v"
    unfolding c using assms(3) p t a by (intro Env_set_owner) blast+
  then have "Env_set h \<tau> (chain ts e) (js_String h \<tau> (arg_at args 0)) v
               = (Ok Undefined, obj_write \<tau> t name v)"
    using a assms(2) by (simp add: js_assign_plain)
  from setq_by_set [where ev = ev and args = args and \<sigma> = \<sigma> and v = v and \<tau> = \<tau>
      and h = h and ts = ts and e = e, OF assms(1) _ assms(4) this] a
  show "setq_macro h ev args \<sigma> = (Ok v, obj_write \<tau> t name v)" by simp
next
  assume a: "lisp_env \<tau> = chain ts (EHost g) \<and>
            (\<forall>u\<in>set ts. own (objs \<tau> u) name = None) \<and>
            loosely_defined (prop_read (objs \<tau> g) name) \<and> name \<notin> guarded (objs \<tau> g)"
  have p: "\<forall>u\<in>set ts. ordinary \<tau> u \<and> own (objs \<tau> u) name = None"
    using a assms(5) by simp
  have "Env_set h \<tau> (chain ts (EHost g)) name v = js_assign \<tau> g name v"
    using assms(3,4) p a by (intro Env_set_host) blast+
  then have "Env_set h \<tau> (chain ts (EHost g)) (js_String h \<tau> (arg_at args 0)) v
               = (Ok Undefined, obj_write \<tau> g name v)"
    using a assms(2) by (simp add: js_assign_plain)
  from setq_by_set [where ev = ev and args = args and \<sigma> = \<sigma> and v = v and \<tau> = \<tau>
      and h = h and ts = ts and e = "EHost g", OF assms(1) _ assms(4) this] a
  show "setq_macro h ev args \<sigma> = (Ok v, obj_write \<tau> g name v)" by simp
next
  assume a: "lisp_env \<tau> = chain ts ENull \<and>
            (\<forall>u\<in>set ts. own (objs \<tau> u) name = None) \<and>
            name \<notin> guarded (objs \<tau> (landing (global \<tau>) ts))"
  have "Env_has \<tau> (chain ts ENull) name = Ok (Bool False)"
    using has_frames(1) [OF assms(4,5)] a by simp
  from Env_set_unbound [OF assms(3,4) this]
  have "Env_set h \<tau> (chain ts ENull) name v = js_assign \<tau> (landing (global \<tau>) ts) name v"
    using walk_landing [OF assms(4)] by simp
  then have "Env_set h \<tau> (chain ts ENull) (js_String h \<tau> (arg_at args 0)) v
               = (Ok Undefined, obj_write \<tau> (landing (global \<tau>) ts) name v)"
    using a assms(2) by (simp add: js_assign_plain)
  from setq_by_set [where ev = ev and args = args and \<sigma> = \<sigma> and v = v and \<tau> = \<tau>
      and h = h and ts = ts and e = ENull, OF assms(1) _ assms(4) this] a
  show "setq_macro h ev args \<sigma> = (Ok v, obj_write \<tau> (landing (global \<tau>) ts) name v)" by simp
next
  assume a: "lisp_env \<tau> = chain ts (EHost g) \<and>
            (\<forall>u\<in>set ts. own (objs \<tau> u) name = None) \<and>
            \<not> loosely_defined (prop_read (objs \<tau> g) name) \<and> global \<tau> \<in> set (tl ts) \<and>
            name \<notin> guarded (objs \<tau> (landing (global \<tau>) ts))"
  have "Env_has \<tau> (chain ts (EHost g)) name = Ok (Bool False)"
    using has_frames(2) [OF assms(4,5)] a by simp
  from Env_set_unbound [OF assms(3,4) this]
  have "Env_set h \<tau> (chain ts (EHost g)) name v = js_assign \<tau> (landing (global \<tau>) ts) name v"
    using walk_landing_host a by simp
  then have "Env_set h \<tau> (chain ts (EHost g)) (js_String h \<tau> (arg_at args 0)) v
               = (Ok Undefined, obj_write \<tau> (landing (global \<tau>) ts) name v)"
    using a assms(2) by (simp add: js_assign_plain)
  from setq_by_set [where ev = ev and args = args and \<sigma> = \<sigma> and v = v and \<tau> = \<tau>
      and h = h and ts = ts and e = "EHost g", OF assms(1) _ assms(4) this] a
  show "setq_macro h ev args \<sigma> = (Ok v, obj_write \<tau> (landing (global \<tau>) ts) name v)" by simp
next
  assume a: "lisp_env \<tau> = chain ts (EHost g) \<and>
            (\<forall>u\<in>set ts. own (objs \<tau> u) name = None) \<and>
            \<not> loosely_defined (prop_read (objs \<tau> g) name) \<and> global \<tau> \<notin> set (tl ts) \<and>
            prop_read (objs \<tau> g) ''symbols'' = Undefined \<and>
            \<not> truthy (prop_read (objs \<tau> g) ''parent'')"
  have "Env_has \<tau> (chain ts (EHost g)) name = Ok (Bool False)"
    using has_frames(2) [OF assms(4,5)] a by simp
  from Env_set_unbound [OF assms(3,4) this]
  have "Env_set h \<tau> (chain ts (EHost g)) name v = (Throw type_error, \<tau>)"
    using walk_host_throws [of \<tau> g ts] assms(4) a by simp
  then have "Env_set h \<tau> (chain ts (EHost g)) (js_String h \<tau> (arg_at args 0)) v
               = (Throw type_error, \<tau>)"
    using assms(2) by simp
  from setq_by_set [where ev = ev and args = args and \<sigma> = \<sigma> and v = v and \<tau> = \<tau>
      and h = h and ts = ts and e = "EHost g", OF assms(1) _ assms(4) this] a
  show "setq_macro h ev args \<sigma> = (Throw type_error, \<tau>)" by simp
next
  assume "gl \<notin> set (us @ [s])"
  then show "landing gl (us @ [s, gl]) = s" by (rule landing_top)
next
  assume "global \<tau> \<notin> set (tl ts)"
  with assms(4) show "landing (global \<tau>) ts = last ts" by (rule landing_last)
qed


lemma resolve_one_literal: "resolve h 1 (Num n) \<sigma> = (Ok (Num n), \<sigma>)"
proof -
  have "resolve h (Suc 0) (Num n) \<sigma> = (Ok (Num n), \<sigma>)" by (simp add: resolve_step_def)
  then show ?thesis by simp
qed

lemma example_tables_ordinary:
  "ordinary named_state 0" "ordinary named_state (Suc 0)"
  "ordinary hosted_state 0" "ordinary hosted_state (Suc 0)"
  "ordinary shadow_state (Suc 0)" "ordinary shadow_state 2"
  by (simp_all add: ordinary_def named_state_def hosted_state_def example_state_def
      shadow_state_def plain_def example_host_def prop_read_def builtins_def)

theorem C4_witness:
  "setq_macro example_host (resolve example_host 1) [Sym 0, Num 10] named_state
     = (Ok (Num 10), obj_write named_state 1 ''a'' (Num 10)) \<and>
   setq_macro example_host (resolve example_host 1) [Sym 1, Num 7] named_state
     = (Ok (Num 7), obj_write named_state 0 ''answer'' (Num 7)) \<and>
   setq_macro example_host (resolve example_host 1) [Str ''y'', Num 6] shadow_state
     = (Ok (Num 6), obj_write shadow_state 0 ''y'' (Num 6)) \<and>
   setq_macro example_host (resolve example_host 1) [Sym 0, Num 10] hosted_state
     = (Ok (Num 10), obj_write hosted_state 1 ''a'' (Num 10)) \<and>
   setq_macro example_host (resolve example_host 1) [Str ''fresh'', Num 1] shadow_state
     = (Throw type_error, shadow_state) \<and>
   landing 0 ([] @ [1, 0]) = 1 \<and>
   landing (global shadow_state) [2, 1] = last [2, 1]"
proof -
  let ?ev = "resolve example_host 1"
  have ne: "[1, 0] \<noteq> ([]::nat list)" "[2, 1] \<noteq> ([]::nat list)" by simp_all
  have on: "\<forall>t\<in>set [1, 0]. ordinary named_state t"
    and oh: "\<forall>t\<in>set [1, 0]. ordinary hosted_state t"
    and os: "\<forall>t\<in>set [2, 1]. ordinary shadow_state t"
    by (simp_all add: example_tables_ordinary)
  have ln: "landing (global named_state) [1, 0] = 1"
    by (simp add: named_state_def example_state_def)
  have lh: "landing (global hosted_state) [1, 0] = 1"
    by (simp add: hosted_state_def named_state_def example_state_def)
  have w1: "setq_macro example_host ?ev [Sym 0, Num 10] named_state
       = (Ok (Num 10), obj_write named_state 1 ''a'' (Num 10))"
  proof -
    have a: "?ev (arg_at [Sym 0, Num 10] 1) named_state = (Ok (Num 10), named_state)"
      by (simp add: arg_at_def resolve_step_def)
    have b: "''a'' = js_String example_host named_state (arg_at [Sym 0, Num 10] 0)"
      by (simp add: arg_at_def js_String_def named_state_def)
    have c: "CHR ''.'' \<notin> set ''a''" by simp
    note t = C4_setq_assignment [where ev = "?ev" and args = "[Sym 0, Num 10]"
        and \<sigma> = named_state and \<tau> = named_state and v = "Num 10" and h = example_host
        and name = "''a''" and ts = "[1, 0]", OF a b c ne(1) on,
        THEN conjunct2, THEN conjunct2, THEN conjunct1]
    have "lisp_env named_state = chain [1, 0] ENull \<and>
          (\<forall>u\<in>set [1, 0]. own (objs named_state u) ''a'' = None) \<and>
          ''a'' \<notin> guarded (objs named_state (landing (global named_state) [1, 0]))"
      unfolding ln by (simp add: named_state_def example_state_def builtins_def plain_def)
    with t have "setq_macro example_host ?ev [Sym 0, Num 10] named_state
       = (Ok (Num 10), obj_write named_state (landing (global named_state) [1, 0]) ''a'' (Num 10))"
      by blast
    then show ?thesis unfolding ln .
  qed
  have w2: "setq_macro example_host ?ev [Sym 1, Num 7] named_state
       = (Ok (Num 7), obj_write named_state 0 ''answer'' (Num 7))"
  proof -
    have a: "?ev (arg_at [Sym 1, Num 7] 1) named_state = (Ok (Num 7), named_state)"
      by (simp add: arg_at_def resolve_step_def)
    have b: "''answer'' = js_String example_host named_state (arg_at [Sym 1, Num 7] 0)"
      by (simp add: arg_at_def js_String_def named_state_def)
    have c: "CHR ''.'' \<notin> set ''answer''" by simp
    note t = C4_setq_assignment [where ev = "?ev" and args = "[Sym 1, Num 7]"
        and \<sigma> = named_state and \<tau> = named_state and v = "Num 7" and h = example_host
        and name = "''answer''" and ts = "[1, 0]" and e = ENull, OF a b c ne(1) on,
        THEN conjunct1, THEN spec, THEN spec, THEN spec, of "[1]" 0 "[]"]
    have "lisp_env named_state = chain [1, 0] ENull \<and> [1, 0] = [1] @ 0 # [] \<and>
          (\<forall>u\<in>set [1]. own (objs named_state u) ''answer'' = None) \<and>
          own (objs named_state 0) ''answer'' \<noteq> None \<and>
          ''answer'' \<notin> guarded (objs named_state 0)"
      by (simp add: named_state_def example_state_def builtins_def plain_def)
    with t show ?thesis by blast
  qed
  have w3: "setq_macro example_host ?ev [Str ''y'', Num 6] shadow_state
       = (Ok (Num 6), obj_write shadow_state 0 ''y'' (Num 6))"
  proof -
    have a: "?ev (arg_at [Str ''y'', Num 6] 1) shadow_state = (Ok (Num 6), shadow_state)"
      by (simp add: arg_at_def resolve_step_def)
    have b: "''y'' = js_String example_host shadow_state (arg_at [Str ''y'', Num 6] 0)"
      by (simp add: arg_at_def js_String_def)
    have c: "CHR ''.'' \<notin> set ''y''" by simp
    note t = C4_setq_assignment [where ev = "?ev" and args = "[Str ''y'', Num 6]"
        and \<sigma> = shadow_state and \<tau> = shadow_state and v = "Num 6" and h = example_host
        and name = "''y''" and ts = "[2, 1]" and g = 0, OF a b c ne(2) os,
        THEN conjunct2, THEN conjunct1]
    have "lisp_env shadow_state = chain [2, 1] (EHost 0) \<and>
          (\<forall>u\<in>set [2, 1]. own (objs shadow_state u) ''y'' = None) \<and>
          loosely_defined (prop_read (objs shadow_state 0) ''y'') \<and>
          ''y'' \<notin> guarded (objs shadow_state 0)"
      by (simp add: shadow_state_def prop_read_def plain_def)
    with t show ?thesis by blast
  qed
  have w4: "setq_macro example_host ?ev [Sym 0, Num 10] hosted_state
       = (Ok (Num 10), obj_write hosted_state 1 ''a'' (Num 10))"
  proof -
    have a: "?ev (arg_at [Sym 0, Num 10] 1) hosted_state = (Ok (Num 10), hosted_state)"
      by (simp add: arg_at_def resolve_step_def)
    have b: "''a'' = js_String example_host hosted_state (arg_at [Sym 0, Num 10] 0)"
      by (simp add: arg_at_def js_String_def hosted_state_def named_state_def)
    have c: "CHR ''.'' \<notin> set ''a''" by simp
    note t = C4_setq_assignment [where ev = "?ev" and args = "[Sym 0, Num 10]"
        and \<sigma> = hosted_state and \<tau> = hosted_state and v = "Num 10" and h = example_host
        and name = "''a''" and ts = "[1, 0]" and g = 3, OF a b c ne(1) oh,
        THEN conjunct2, THEN conjunct2, THEN conjunct2, THEN conjunct1]
    have "lisp_env hosted_state = chain [1, 0] (EHost 3) \<and>
          (\<forall>u\<in>set [1, 0]. own (objs hosted_state u) ''a'' = None) \<and>
          \<not> loosely_defined (prop_read (objs hosted_state 3) ''a'') \<and>
          global hosted_state \<in> set (tl [1, 0]) \<and>
          ''a'' \<notin> guarded (objs hosted_state (landing (global hosted_state) [1, 0]))"
      unfolding lh
      by (simp add: hosted_state_def named_state_def example_state_def builtins_def plain_def
          prop_read_def example_host_def)
    with t have "setq_macro example_host ?ev [Sym 0, Num 10] hosted_state
       = (Ok (Num 10), obj_write hosted_state (landing (global hosted_state) [1, 0]) ''a'' (Num 10))"
      by blast
    then show ?thesis unfolding lh .
  qed
  have w5: "setq_macro example_host ?ev [Str ''fresh'', Num 1] shadow_state
       = (Throw type_error, shadow_state)"
  proof -
    have a: "?ev (arg_at [Str ''fresh'', Num 1] 1) shadow_state = (Ok (Num 1), shadow_state)"
      by (simp add: arg_at_def resolve_step_def)
    have b: "''fresh'' = js_String example_host shadow_state (arg_at [Str ''fresh'', Num 1] 0)"
      by (simp add: arg_at_def js_String_def)
    have c: "CHR ''.'' \<notin> set ''fresh''" by simp
    note t = C4_setq_assignment [where ev = "?ev" and args = "[Str ''fresh'', Num 1]"
        and \<sigma> = shadow_state and \<tau> = shadow_state and v = "Num 1" and h = example_host
        and name = "''fresh''" and ts = "[2, 1]" and g = 0, OF a b c ne(2) os,
        THEN conjunct2, THEN conjunct2, THEN conjunct2, THEN conjunct2, THEN conjunct1]
    have "lisp_env shadow_state = chain [2, 1] (EHost 0) \<and>
          (\<forall>u\<in>set [2, 1]. own (objs shadow_state u) ''fresh'' = None) \<and>
          \<not> loosely_defined (prop_read (objs shadow_state 0) ''fresh'') \<and>
          global shadow_state \<notin> set (tl [2, 1]) \<and>
          prop_read (objs shadow_state 0) ''symbols'' = Undefined \<and>
          \<not> truthy (prop_read (objs shadow_state 0) ''parent'')"
      by (simp add: shadow_state_def prop_read_def plain_def example_host_def)
    with t show ?thesis by blast
  qed
  have w6: "landing 0 ([] @ [1, 0]) = 1 \<and> landing (global shadow_state) [2, 1] = last [2, 1]"
  proof -
    have a: "?ev (arg_at [Str ''fresh'', Num 1] 1) shadow_state = (Ok (Num 1), shadow_state)"
      by (simp add: arg_at_def resolve_step_def)
    have b: "''fresh'' = js_String example_host shadow_state (arg_at [Str ''fresh'', Num 1] 0)"
      by (simp add: arg_at_def js_String_def)
    have c: "CHR ''.'' \<notin> set ''fresh''" by simp
    note t = C4_setq_assignment [where ev = "?ev" and args = "[Str ''fresh'', Num 1]"
        and \<sigma> = shadow_state and \<tau> = shadow_state and v = "Num 1" and h = example_host
        and name = "''fresh''" and ts = "[2, 1]" and gl = 0 and us = "[]" and s = 1,
        OF a b c ne(2) os,
        THEN conjunct2, THEN conjunct2, THEN conjunct2, THEN conjunct2, THEN conjunct2]
    have "(0::nat) \<notin> set ([] @ [1])" by simp
    moreover have "global shadow_state \<notin> set (tl [2, 1])" by (simp add: shadow_state_def)
    ultimately show ?thesis using t by blast
  qed
  from w1 w2 w3 w4 w5 w6 show ?thesis by blast
qed

text \<open>
  Claim C4 as stated fails where no binding exists. At the top level of \<open>named_state\<close>,
  whose environment is the top-level frame (table 1) over the \<^verbatim>\<open>Env\<close> holding the global
  object, \<^verbatim>\<open>(setq a 10)\<close> leaves the global object without \<^verbatim>\<open>a\<close> and puts the binding in
  table 1, the innermost frame. Over a host namespace that is no \<^verbatim>\<open>Env\<close>, as in
  \<open>shadow_state\<close>, \<^verbatim>\<open>setq\<close> of an unbound name throws and binds nothing.
\<close>

theorem C4_counterexample:
  "lisp_env named_state = Env (Env ENull (global named_state)) 1 \<and>
   fst (setq_macro example_host (resolve example_host 1) [Sym 0, Num 10] named_state) = Ok (Num 10) \<and>
   own (objs (snd (setq_macro example_host (resolve example_host 1) [Sym 0, Num 10] named_state))
          (global named_state)) ''a'' = None \<and>
   own (objs (snd (setq_macro example_host (resolve example_host 1) [Sym 0, Num 10] named_state)) 1)
          ''a'' = Some (Num 10) \<and>
   lisp_env shadow_state = Env (Env (EHost 0) 1) 2 \<and>
   fst (setq_macro example_host (resolve example_host 1) [Str ''fresh'', Num 1] shadow_state)
     = Throw type_error \<and>
   objs (snd (setq_macro example_host (resolve example_host 1) [Str ''fresh'', Num 1] shadow_state)) 0
     = objs shadow_state 0"
  by (simp add: setq_macro_def resolve_one_literal arg_at_def js_String_def cur_set_def
      named_state_def example_state_def builtins_def shadow_state_def prop_read_def obj_write_def
      js_assign_def hasOwnProperty_def plain_def example_host_def split_dot_nodot
      del: One_nat_def)


section \<open>Functions made by lambda\<close>




















section \<open>let\<close>











end
